theory Spec2Isabelle
  imports Main "HOL-Library.AList"
begin

section \<open>Balancer V2: event-driven pool state and quoting\<close>

text \<open>
  A shallow embedding of \<^verbatim>\<open>src/dex/balancer-v2/balancer-v2.ts\<close>: the class
  \<^verbatim>\<open>BalancerV2EventPool\<close> (log processing, the two event handlers, per-pool pricing)
  and the class \<^verbatim>\<open>BalancerV2\<close> (pool selection, the non-event cache, quoting).

  JavaScript \<^verbatim>\<open>bigint\<close> is \<open>int\<close>; block numbers and decimals are \<open>nat\<close>; a thrown
  exception is a value of type \<open>error\<close>; \<^verbatim>\<open>null\<close> and \<^verbatim>\<open>undefined\<close> are \<open>None\<close>.
\<close>

subsection \<open>Strings and errors\<close>

type_synonym Address = string

datatype error = TypeError | ParseLogError | FetchError | StrategyError

text \<open>\<^verbatim>\<open>String.prototype.toLowerCase\<close> on the ASCII range (addresses and ids are ASCII).\<close>

definition lower_char :: "char \<Rightarrow> char" where
  "lower_char c =
     (if (65::nat) \<le> of_char c \<and> of_char c \<le> (90::nat)
      then char_of (of_char c + (32::nat)) else c)"

definition toLowerCase :: "string \<Rightarrow> string" where
  "toLowerCase s = map lower_char s"

subsection \<open>Pool descriptors and tokens\<close>

datatype SwapSide = SELL | BUY

text \<open>\<^verbatim>\<open>Token\<close> of \<^verbatim>\<open>../../types\<close>, with the fields this file reads.\<close>

record Token =
  address :: Address
  decimals :: nat
  symbol :: "string option"

text \<open>
  \<^verbatim>\<open>SubgraphPoolBase\<close>, with the fields of the \<^verbatim>\<open>fetchAllPools\<close> query; a token of a
  virtual pool also carries \<^verbatim>\<open>linearPoolAddr\<close>.
\<close>

record SubgraphToken =
  address :: Address
  decimals :: nat
  linearPoolAddr :: "Address option"

record SubgraphPoolBase =
  id' :: string
  address :: Address
  poolType :: string
  tokens :: "SubgraphToken list"
  mainIndex :: nat
  wrappedIndex :: nat
  totalLiquidity :: string

text \<open>An entry of \<^verbatim>\<open>BoostedPools\<close>: here only \<^verbatim>\<open>mainTokens[*].linearPoolAddr\<close> is read.\<close>

record MainToken =
  address :: Address
  decimals :: nat
  linearPoolAddr :: Address

record BoostedPool =
  mainTokens :: "MainToken list"

type_synonym BoostedPools = "string \<rightharpoonup> BoostedPool"

text \<open>The enum \<^verbatim>\<open>BalancerPoolTypes\<close>, as \<^verbatim>\<open>Object.values\<close> lists it.\<close>

definition BalancerPoolTypes :: "string list" where
  "BalancerPoolTypes =
     [''Weighted'', ''Stable'', ''MetaStable'', ''LiquidityBootstrapping'', ''Investment'',
      ''AaveLinear'', ''StablePhantom'', ''VirtualBoosted'', ''ERC4626Linear'']"

definition isSupportedPool :: "string \<Rightarrow> bool" where
  "isSupportedPool pt \<longleftrightarrow> pt \<in> set BalancerPoolTypes"

subsection \<open>Pool-type strategies\<close>

text \<open>
  The pool classes (\<^verbatim>\<open>WeightedPool\<close>, \<^verbatim>\<open>StablePool\<close>, \<^verbatim>\<open>LinearPool\<close>,
  \<^verbatim>\<open>PhantomStablePool\<close>, \<^verbatim>\<open>VirtualBoostedPool\<close>) are external to this file: a strategy is
  the record of the methods called here, each of which may throw. \<open>'s\<close> is the type of
  a pool state, \<open>'d\<close> of the pool pair data, \<open>'c\<close> of a multicall request and \<open>'r\<close> of a
  multicall result.
\<close>

record ('s, 'd, 'c, 'r) strategy =
  parsePoolPairData ::
    "SubgraphPoolBase \<Rightarrow> (Address \<rightharpoonup> 's) \<Rightarrow> Address \<Rightarrow> Address \<Rightarrow> BoostedPools \<Rightarrow> error + 'd"
  checkBalance :: "int list \<Rightarrow> int \<Rightarrow> SwapSide \<Rightarrow> 'd \<Rightarrow> error + bool"
  onSell :: "int list \<Rightarrow> 'd \<Rightarrow> error + int list"
  pairGasCost :: "'d \<Rightarrow> nat"
  getOnChainCalls :: "SubgraphPoolBase \<Rightarrow> BoostedPools \<Rightarrow> 'c list"
  decodeOnChainCalls ::
    "SubgraphPoolBase \<Rightarrow> 'r list \<Rightarrow> nat \<Rightarrow> BoostedPools \<Rightarrow> error + ((Address \<rightharpoonup> 's) \<times> nat)"

text \<open>The registry \<^verbatim>\<open>this.pools\<close> as the constructor fills it from the five pool objects.\<close>

definition pools_registry ::
  "('s, 'd, 'c, 'r) strategy \<Rightarrow> ('s, 'd, 'c, 'r) strategy \<Rightarrow> ('s, 'd, 'c, 'r) strategy \<Rightarrow>
   ('s, 'd, 'c, 'r) strategy \<Rightarrow> ('s, 'd, 'c, 'r) strategy \<Rightarrow> string \<rightharpoonup> ('s, 'd, 'c, 'r) strategy" where
  "pools_registry weightedPool stablePool linearPool stablePhantomPool virtualBoostedPool =
     [''Weighted'' \<mapsto> weightedPool,
      ''Stable'' \<mapsto> stablePool,
      ''MetaStable'' \<mapsto> stablePool,
      ''LiquidityBootstrapping'' \<mapsto> weightedPool,
      ''Investment'' \<mapsto> weightedPool,
      ''AaveLinear'' \<mapsto> linearPool,
      ''ERC4626Linear'' \<mapsto> linearPool,
      ''StablePhantom'' \<mapsto> stablePhantomPool,
      ''VirtualBoosted'' \<mapsto> virtualBoostedPool]"

text \<open>
  The object \<^verbatim>\<open>getPricesPool\<close> returns; \<open>unit\<close> is \<^verbatim>\<open>_prices[0]\<close>, which is
  \<^verbatim>\<open>undefined\<close> (\<open>None\<close>) when the strategy returns an empty array.
\<close>

record PricesPool =
  unit :: "int option"
  prices :: "int list"
  gasCost :: nat

text \<open>\<^verbatim>\<open>xs[0]\<close>.\<close>

fun first_elem :: "'a list \<Rightarrow> 'a option" where
  "first_elem [] = None"
| "first_elem (x # xs) = Some x"

record Adapter =
  name :: string
  index :: nat

text \<open>\<^verbatim>\<open>PoolStateCache\<close>: the in-memory pool state of non-event pools.\<close>

record 's PoolStateCache =
  blockNumber :: nat
  poolState :: "Address \<rightharpoonup> 's"

record BalancerV2Data =
  poolId :: string

text \<open>An element of \<^verbatim>\<open>ExchangePrices\<close>: the fields of \<open>PricesPool\<close> and the pool reference.\<close>

record PoolPrices = PricesPool +
  data :: BalancerV2Data
  poolAddresses :: "Address list"
  exchange :: string
  poolIdentifier :: string

text \<open>
  The fields of a \<^verbatim>\<open>BalancerV2EventPool\<close> that quoting reads, and its external
  collaborators: the subscriber's \<^verbatim>\<open>getState\<close> (\<open>Inr None\<close> is \<^verbatim>\<open>null\<close>) and the
  multicall contract's \<^verbatim>\<open>tryAggregate(false, calls).call({}, blockNumber)\<close>.
\<close>

record ('s, 'd, 'c, 'r) BalancerV2EventPool =
  pools :: "string \<rightharpoonup> ('s, 'd, 'c, 'r) strategy"
  allPools :: "SubgraphPoolBase list"
  virtualBoostedPools :: BoostedPools
  getState :: "nat \<Rightarrow> error + (Address \<rightharpoonup> 's) option"
  tryAggregate :: "'c list \<Rightarrow> nat \<Rightarrow> error + 'r list"

text \<open>The fields of a \<^verbatim>\<open>BalancerV2\<close>, and \<^verbatim>\<open>dexHelper.config.wrapETH\<close>.\<close>

record ('s, 'd, 'c, 'r) BalancerV2 =
  dexKey :: string
  adapters :: "Adapter list option"
  eventPools :: "('s, 'd, 'c, 'r) BalancerV2EventPool"
  eventDisabledPools :: "Address list"
  nonEventPoolStateCache :: "'s PoolStateCache"
  wrapETH :: "Token \<Rightarrow> Token"

subsection \<open>Pool state and the object store\<close>

text \<open>
  \<^verbatim>\<open>TokenState\<close> and \<^verbatim>\<open>PoolState\<close> (declared in \<^verbatim>\<open>./types\<close>): a pool state maps each
  token address to a record with a \<^verbatim>\<open>balance\<close>, and carries further scalars that the event
  handlers never touch. Both are record schemes, so whatever further fields the
  declarations have live in the extension part and are carried along unchanged.
\<close>

record TokenState =
  balance :: int

record 't PoolState =
  tokens :: "Address \<rightharpoonup> 't TokenState_scheme"

text \<open>
  The handlers mutate pool-state objects in place, and \<^verbatim>\<open>processLog\<close> protects its input
  by cloning. To make that visible, pool-state objects live in a store: a reference is an
  index into the list of allocated objects, and a \<^verbatim>\<open>PoolStateMap\<close> object is its list of
  entries (key, reference) in insertion order, the order of \<^verbatim>\<open>Object.entries\<close>.
  A pool-state object is taken as a tree: its token records are not shared.
\<close>

type_synonym ref = nat

type_synonym ('t, 'p) heap = "('t, 'p) PoolState_scheme list"

type_synonym PoolStateMapRef = "(Address \<times> ref) list"

text \<open>The values a \<^verbatim>\<open>PoolStateMap\<close> denotes in a store.\<close>

definition snapshot :: "('t, 'p) heap \<Rightarrow> PoolStateMapRef \<Rightarrow> (Address \<times> ('t, 'p) PoolState_scheme) list" where
  "snapshot h s = map (\<lambda>(a, r). (a, h ! r)) s"

definition lookup_pool :: "('t, 'p) heap \<Rightarrow> PoolStateMapRef \<Rightarrow> Address \<rightharpoonup> ('t, 'p) PoolState_scheme" where
  "lookup_pool h s a = map_option (\<lambda>r. h ! r) (map_of s a)"

text \<open>Every reference of the map is allocated, and keys are unique (it is a JS object).\<close>

definition wf_state :: "('t, 'p) heap \<Rightarrow> PoolStateMapRef \<Rightarrow> bool" where
  "wf_state h s \<longleftrightarrow> distinct (map fst s) \<and> (\<forall>r \<in> set (map snd s). r < length h)"

text \<open>\<^verbatim>\<open>typecastReadOnlyPoolState\<close>: \<^verbatim>\<open>_.cloneDeep(pool)\<close> allocates a fresh copy.\<close>

definition typecastReadOnlyPoolState :: "('t, 'p) heap \<Rightarrow> ref \<Rightarrow> ('t, 'p) heap \<times> ref" where
  "typecastReadOnlyPoolState h pool = (h @ [h ! pool], length h)"

subsection \<open>Decoded events\<close>

text \<open>
  The result of \<^verbatim>\<open>vaultInterface.parseLog\<close>: a \<^verbatim>\<open>name\<close> and the decoded \<^verbatim>\<open>args\<close>. The
  two argument shapes the handlers read are those of the Vault's \<^verbatim>\<open>Swap\<close> and
  \<^verbatim>\<open>PoolBalanceChanged\<close> events; \<open>OtherArgs\<close> stands for arguments with none of the fields
  read here. Amounts are already the \<^verbatim>\<open>BigInt(x.toString())\<close> values.
\<close>

datatype event_args =
    SwapArgs string Address Address int int
  | PoolBalanceChangedArgs string Address "Address list" "int list" "int list"
  | OtherArgs

record event =
  name :: string
  args :: event_args

text \<open>\<^verbatim>\<open>event.args.poolId\<close>; \<open>None\<close> is \<^verbatim>\<open>undefined\<close>.\<close>

fun args_poolId :: "event_args \<Rightarrow> string option" where
  "args_poolId (SwapArgs pid tIn tOut aIn aOut) = Some pid"
| "args_poolId (PoolBalanceChangedArgs pid lp ts ds fs) = Some pid"
| "args_poolId OtherArgs = None"

subsection \<open>Event handlers\<close>

text \<open>
  \<^verbatim>\<open>pool.tokens[t].balance = f(pool.tokens[t].balance)\<close> on the object \<open>pool\<close> of the
  store; reading \<^verbatim>\<open>.balance\<close> of a missing token record throws a \<^verbatim>\<open>TypeError\<close>.
\<close>

definition update_balance ::
  "('t, 'p) heap \<Rightarrow> ref \<Rightarrow> Address \<Rightarrow> (int \<Rightarrow> int) \<Rightarrow> error + ('t, 'p) heap" where
  "update_balance h pool t f =
     (case tokens (h ! pool) t of
        None \<Rightarrow> Inl TypeError
      | Some ts \<Rightarrow>
          Inr (h[pool := (h ! pool)\<lparr>tokens := (tokens (h ! pool))(t \<mapsto> ts\<lparr>balance := f (balance ts)\<rparr>)\<rparr>]))"

text \<open>
  A handler returns the store as it has left it, also when it throws, and either the
  error or the pool object it was given.
\<close>

definition handleSwap ::
  "event \<Rightarrow> ('t, 'p) heap \<Rightarrow> ref \<Rightarrow> ('t, 'p) heap \<times> (error + ref)" where
  "handleSwap ev h pool =
     (case args ev of
        SwapArgs pid tIn tOut amountIn amountOut \<Rightarrow>
          (let tokenIn = toLowerCase tIn; tokenOut = toLowerCase tOut in
           case update_balance h pool tokenIn (\<lambda>b. b + amountIn) of
             Inl e \<Rightarrow> (h, Inl e)
           | Inr h1 \<Rightarrow>
               (case update_balance h1 pool tokenOut (\<lambda>b. b - amountOut) of
                  Inl e \<Rightarrow> (h1, Inl e)
                | Inr h2 \<Rightarrow> (h2, Inr pool)))
      | _ \<Rightarrow> (h, Inl TypeError))"

text \<open>
  The \<^verbatim>\<open>forEach\<close> of \<^verbatim>\<open>handlePoolBalanceChanged\<close>, from index \<open>i\<close> on.
  \<^verbatim>\<open>deltas[i] - fees[i]\<close> with either operand \<^verbatim>\<open>undefined\<close> throws, at the subtraction
  or at the following \<^verbatim>\<open>+=\<close> of a non-bigint.
\<close>

fun balance_changes ::
  "('t, 'p) heap \<Rightarrow> ref \<Rightarrow> int list \<Rightarrow> int list \<Rightarrow> nat \<Rightarrow> Address list \<Rightarrow> ('t, 'p) heap \<times> (error + unit)" where
  "balance_changes h pool deltas fees i [] = (h, Inr ())"
| "balance_changes h pool deltas fees i (t # ts) =
     (if i < length deltas \<and> i < length fees then
        (let diff = deltas ! i - fees ! i in
         case update_balance h pool t (\<lambda>b. b + diff) of
           Inl e \<Rightarrow> (h, Inl e)
         | Inr h1 \<Rightarrow> balance_changes h1 pool deltas fees (Suc i) ts)
      else (h, Inl TypeError))"

definition handlePoolBalanceChanged ::
  "event \<Rightarrow> ('t, 'p) heap \<Rightarrow> ref \<Rightarrow> ('t, 'p) heap \<times> (error + ref)" where
  "handlePoolBalanceChanged ev h pool =
     (case args ev of
        PoolBalanceChangedArgs pid lp toks deltas fees \<Rightarrow>
          (case balance_changes h pool deltas fees 0 (map toLowerCase toks) of
             (h1, Inl e) \<Rightarrow> (h1, Inl e)
           | (h1, Inr u) \<Rightarrow> (h1, Inr pool))
      | _ \<Rightarrow> (h, Inl TypeError))"

text \<open>The handler table filled by the constructor.\<close>

definition handlers ::
  "string \<rightharpoonup> (event \<Rightarrow> ('t, 'p) heap \<Rightarrow> ref \<Rightarrow> ('t, 'p) heap \<times> (error + ref))" where
  "handlers = [''Swap'' \<mapsto> handleSwap, ''PoolBalanceChanged'' \<mapsto> handlePoolBalanceChanged]"

subsection \<open>processLog\<close>

text \<open>
  The first loop of \<^verbatim>\<open>processLog\<close>: \<^verbatim>\<open>_state[address] = typecastReadOnlyPoolState(pool)\<close>
  for each entry; assignment to an object key is \<open>AList.update\<close>.
\<close>

fun clone_entries ::
  "('t, 'p) heap \<Rightarrow> PoolStateMapRef \<Rightarrow> PoolStateMapRef \<Rightarrow> ('t, 'p) heap \<times> PoolStateMapRef" where
  "clone_entries h state' [] = (h, state')"
| "clone_entries h state' ((addr, pool) # rest) =
     (case typecastReadOnlyPoolState h pool of
        (h1, pool1) \<Rightarrow> clone_entries h1 (AList.update addr pool1 state') rest)"

text \<open>
  \<^verbatim>\<open>processLog(state, log)\<close>. The decoder \<^verbatim>\<open>vaultDecoder\<close> (ethers' \<^verbatim>\<open>parseLog\<close> on the
  Vault ABI) is a parameter and may throw. The result is the store afterwards and the
  returned map, \<open>None\<close> for \<^verbatim>\<open>null\<close>; whatever is thrown inside the \<^verbatim>\<open>try\<close> block
  ends in \<^verbatim>\<open>null\<close>.

  The tests \<^verbatim>\<open>event.name in this.handlers\<close> and \<^verbatim>\<open>poolAddress in _state\<close> are lookups
  in the table and in the map: event names are those of the Vault ABI and keys are
  addresses, none of which is a property that a plain object inherits.
\<close>

definition processLog ::
  "('l \<Rightarrow> error + event) \<Rightarrow> ('t, 'p) heap \<Rightarrow> PoolStateMapRef \<Rightarrow> 'l \<Rightarrow> ('t, 'p) heap \<times> PoolStateMapRef option" where
  "processLog vaultDecoder h state log =
     (case clone_entries h [] state of
        (h0, state') \<Rightarrow>
          (case vaultDecoder log of
             Inl e \<Rightarrow> (h0, None)
           | Inr ev \<Rightarrow>
               (case handlers (name ev) of
                  None \<Rightarrow> (h0, Some state')
                | Some handler \<Rightarrow>
                    (case args_poolId (args ev) of
                       None \<Rightarrow> (h0, None)
                     | Some pid \<Rightarrow>
                         (let poolAddress = toLowerCase (take 42 pid) in
                          case map_of state' poolAddress of
                            None \<Rightarrow> (h0, Some state')
                          | Some pool \<Rightarrow>
                              (case handler ev h0 pool of
                                 (h1, Inl e) \<Rightarrow> (h1, None)
                               | (h1, Inr pool1) \<Rightarrow>
                                   (h1, Some (AList.update poolAddress pool1 state'))))))))"

subsection \<open>getPricesPool\<close>

text \<open>
  \<^verbatim>\<open>getPricesPool\<close>: \<open>Inl\<close> is a thrown exception, \<open>Inr None\<close> is \<^verbatim>\<open>null\<close>.
\<close>

definition getPricesPool ::
  "('s, 'd, 'c, 'r) BalancerV2EventPool \<Rightarrow> Token \<Rightarrow> Token \<Rightarrow> SubgraphPoolBase \<Rightarrow>
   (Address \<rightharpoonup> 's) \<Rightarrow> int list \<Rightarrow> int \<Rightarrow> SwapSide \<Rightarrow> error + PricesPool option" where
  "getPricesPool this from to pool poolStates amounts unitVolume side =
     (if \<not> isSupportedPool (poolType pool) then Inr None
      else
        let amounts' = unitVolume # drop 1 amounts in
        case pools this (poolType pool) of
          None \<Rightarrow> Inl TypeError
        | Some strat \<Rightarrow>
            (case parsePoolPairData strat pool poolStates (Token.address from) (Token.address to)
                    (virtualBoostedPools this) of
               Inl e \<Rightarrow> Inl e
             | Inr poolPairData \<Rightarrow>
                 (case checkBalance strat amounts unitVolume side poolPairData of
                    Inl e \<Rightarrow> Inl e
                  | Inr ok \<Rightarrow>
                      if \<not> ok then Inr None
                      else
                        (case onSell strat amounts' poolPairData of
                           Inl e \<Rightarrow> Inl e
                         | Inr prices' \<Rightarrow>
                             Inr (Some \<lparr>unit = first_elem prices',
                                        prices = 0 # drop 1 prices',
                                        gasCost = pairGasCost strat poolPairData\<rparr>)))))"

subsection \<open>getOnChainState\<close>

text \<open>\<^verbatim>\<open>_.chunk(xs, n)\<close>.\<close>

function chunk :: "nat \<Rightarrow> 'a list \<Rightarrow> 'a list list" where
  "chunk n xs = (if n = 0 \<or> xs = [] then [] else take n xs # chunk n (drop n xs))"
  by pat_completeness auto
termination
  by (relation "measure (\<lambda>(n, xs). length xs)") auto

text \<open>The \<^verbatim>\<open>map(...).flat()\<close> that collects the calls of every supported pool.\<close>

fun multiCallData ::
  "('s, 'd, 'c, 'r) BalancerV2EventPool \<Rightarrow> SubgraphPoolBase list \<Rightarrow> error + 'c list" where
  "multiCallData this [] = Inr []"
| "multiCallData this (pool # rest) =
     (if \<not> isSupportedPool (poolType pool) then multiCallData this rest
      else
        case pools this (poolType pool) of
          None \<Rightarrow> Inl TypeError
        | Some strat \<Rightarrow>
            (case multiCallData this rest of
               Inl e \<Rightarrow> Inl e
             | Inr calls \<Rightarrow> Inr (getOnChainCalls strat pool (virtualBoostedPools this) @ calls)))"

text \<open>The batches, all read at the same \<^verbatim>\<open>blockNumber\<close>; one failing batch fails the read.\<close>

fun returnData ::
  "('s, 'd, 'c, 'r) BalancerV2EventPool \<Rightarrow> nat \<Rightarrow> 'c list list \<Rightarrow> error + 'r list" where
  "returnData this bn [] = Inr []"
| "returnData this bn (batch # rest) =
     (case tryAggregate this batch bn of
        Inl e \<Rightarrow> Inl e
      | Inr res \<Rightarrow>
          (case returnData this bn rest of
             Inl e \<Rightarrow> Inl e
           | Inr others \<Rightarrow> Inr (res @ others)))"

text \<open>The \<^verbatim>\<open>reduce\<close> that decodes pool after pool, with the cursor \<open>i\<close>.\<close>

fun onChainStateMap ::
  "('s, 'd, 'c, 'r) BalancerV2EventPool \<Rightarrow> 'r list \<Rightarrow> nat \<Rightarrow> (Address \<rightharpoonup> 's) \<Rightarrow>
   SubgraphPoolBase list \<Rightarrow> error + (Address \<rightharpoonup> 's)" where
  "onChainStateMap this ret i acc [] = Inr acc"
| "onChainStateMap this ret i acc (pool # rest) =
     (if \<not> isSupportedPool (poolType pool) then onChainStateMap this ret i acc rest
      else
        case pools this (poolType pool) of
          None \<Rightarrow> Inl TypeError
        | Some strat \<Rightarrow>
            (case decodeOnChainCalls strat pool ret i (virtualBoostedPools this) of
               Inl e \<Rightarrow> Inl e
             | Inr (decoded, newIndex) \<Rightarrow>
                 onChainStateMap this ret newIndex (acc ++ decoded) rest))"

definition getOnChainState ::
  "('s, 'd, 'c, 'r) BalancerV2EventPool \<Rightarrow> SubgraphPoolBase list \<Rightarrow> nat \<Rightarrow> error + (Address \<rightharpoonup> 's)" where
  "getOnChainState this subgraphPoolBase bn =
     (case multiCallData this subgraphPoolBase of
        Inl e \<Rightarrow> Inl e
      | Inr calls \<Rightarrow>
          (case returnData this bn (chunk 500 calls) of
             Inl e \<Rightarrow> Inl e
           | Inr ret \<Rightarrow> onChainStateMap this ret 0 Map.empty subgraphPoolBase))"

subsection \<open>Pool selection and identifiers\<close>

definition getPools :: "('s, 'd, 'c, 'r) BalancerV2 \<Rightarrow> Token \<Rightarrow> Token \<Rightarrow> SubgraphPoolBase list" where
  "getPools dex from to =
     take 10 (filter
       (\<lambda>p. list_ex (\<lambda>token. toLowerCase (SubgraphToken.address token) = toLowerCase (Token.address from))
                (SubgraphPoolBase.tokens p)
          \<and> list_ex (\<lambda>token. toLowerCase (SubgraphToken.address token) = toLowerCase (Token.address to))
                (SubgraphPoolBase.tokens p))
       (allPools (eventPools dex)))"

definition getAdapters :: "('s, 'd, 'c, 'r) BalancerV2 \<Rightarrow> SwapSide \<Rightarrow> Adapter list option" where
  "getAdapters dex side = (if side = BUY then None else adapters dex)"

text \<open>
  The identifiers one pool contributes; \<^verbatim>\<open>t.linearPoolAddr?.toLowerCase()\<close> of a token
  without that field prints as \<^verbatim>\<open>undefined\<close>.
\<close>

definition pool_identifiers :: "string \<Rightarrow> SubgraphPoolBase \<Rightarrow> string list" where
  "pool_identifiers key p =
     (key @ ''_'' @ toLowerCase (SubgraphPoolBase.address p)) #
     (if poolType p = ''VirtualBoosted'' then
        (key @ ''_'' @ toLowerCase (SubgraphPoolBase.address p) @ ''virtualboosted'') #
        map (\<lambda>t. key @ ''_'' @
               (case SubgraphToken.linearPoolAddr t of None \<Rightarrow> ''undefined'' | Some a \<Rightarrow> toLowerCase a))
            (SubgraphPoolBase.tokens p)
      else [])"

definition getPoolIdentifiers ::
  "('s, 'd, 'c, 'r) BalancerV2 \<Rightarrow> Token \<Rightarrow> Token \<Rightarrow> SwapSide \<Rightarrow> nat \<Rightarrow> string list" where
  "getPoolIdentifiers dex from to side bn =
     (if side = BUY then []
      else
        let from' = wrapETH dex from; to' = wrapETH dex to;
            poolsWithTokens = getPools dex from' to'
        in concat (map (pool_identifiers (dexKey dex)) poolsWithTokens))"

subsection \<open>The non-event pool state cache\<close>

text \<open>Both return the updated cache and the map the source returns.\<close>

definition getNonEventPoolStateCache ::
  "'s PoolStateCache \<Rightarrow> nat \<Rightarrow> 's PoolStateCache \<times> (Address \<rightharpoonup> 's)" where
  "getNonEventPoolStateCache cache bn =
     (let cache1 = (if blockNumber cache \<noteq> bn then cache\<lparr>poolState := Map.empty\<rparr> else cache)
      in (cache1, poolState cache1))"

definition updateNonEventPoolStateCache ::
  "'s PoolStateCache \<Rightarrow> (Address \<rightharpoonup> 's) \<Rightarrow> nat \<Rightarrow> 's PoolStateCache \<times> (Address \<rightharpoonup> 's)" where
  "updateNonEventPoolStateCache cache ps bn =
     (let cache1 =
        (if blockNumber cache \<noteq> bn then cache\<lparr>blockNumber := bn, poolState := ps\<rparr>
         else cache\<lparr>poolState := poolState cache ++ ps\<rparr>)
      in (cache1, poolState cache1))"

text \<open>A sequence of calls of the two methods on the cache.\<close>

datatype 's cache_call = Get nat | Update "Address \<rightharpoonup> 's" nat

fun cache_step :: "'s PoolStateCache \<Rightarrow> 's cache_call \<Rightarrow> 's PoolStateCache" where
  "cache_step cache (Get bn) = fst (getNonEventPoolStateCache cache bn)"
| "cache_step cache (Update ps bn) = fst (updateNonEventPoolStateCache cache ps bn)"

definition cache_run :: "'s PoolStateCache \<Rightarrow> 's cache_call list \<Rightarrow> 's PoolStateCache" where
  "cache_run cache calls = foldl cache_step cache calls"

subsection \<open>getPricesVolume\<close>

text \<open>
  \<^verbatim>\<open>s.split(sep)[0]\<close>: the text before the first occurrence of \<open>sep\<close>. With an empty
  separator the string is split into its characters, and the first element of an empty
  array is \<^verbatim>\<open>undefined\<close>, which as an object key reads \<^verbatim>\<open>undefined\<close>.
\<close>

fun before_sep :: "string \<Rightarrow> string \<Rightarrow> string" where
  "before_sep sep [] = []"
| "before_sep sep (c # cs) =
     (if take (length sep) (c # cs) = sep then [] else c # before_sep sep cs)"

definition split_first :: "string \<Rightarrow> string \<Rightarrow> string" where
  "split_first s sep =
     (if sep = [] then (case s of [] \<Rightarrow> ''undefined'' | c # cs \<Rightarrow> [c]) else before_sep sep s)"

text \<open>The loop over \<^verbatim>\<open>mainTokens\<close> in the allow-list filter, with its early return.\<close>

fun spokes_listed :: "string \<Rightarrow> string list \<Rightarrow> MainToken list \<Rightarrow> bool" where
  "spokes_listed key limitPools [] = True"
| "spokes_listed key limitPools (t # ts) =
     (if key @ ''_'' @ toLowerCase (MainToken.linearPoolAddr t) \<notin> set limitPools then False
      else spokes_listed key limitPools ts)"

text \<open>The callback of the filter that computes \<^verbatim>\<open>allowedPools\<close>.\<close>

definition pool_allowed :: "('s, 'd, 'c, 'r) BalancerV2 \<Rightarrow> string list \<Rightarrow> SubgraphPoolBase \<Rightarrow> bool" where
  "pool_allowed dex limitPools pool =
     (if dexKey dex @ ''_'' @ toLowerCase (SubgraphPoolBase.address pool) \<notin> set limitPools then False
      else
        let vid = split_first (id' pool) (toLowerCase (poolType pool)) in
        case virtualBoostedPools (eventPools dex) vid of
          None \<Rightarrow> True
        | Some vb \<Rightarrow>
            if dexKey dex @ ''_'' @ toLowerCase (SubgraphPoolBase.address pool) @ ''virtualboosted''
                 \<notin> set limitPools
            then False
            else spokes_listed (dexKey dex) limitPools (mainTokens vb))"

definition allowedPools ::
  "('s, 'd, 'c, 'r) BalancerV2 \<Rightarrow> string list option \<Rightarrow> SubgraphPoolBase list \<Rightarrow> SubgraphPoolBase list" where
  "allowedPools dex limitPools poolsWithTokens =
     (case limitPools of
        None \<Rightarrow> poolsWithTokens
      | Some lp \<Rightarrow> filter (pool_allowed dex lp) poolsWithTokens)"

text \<open>
  Modelled from the spec: \<^verbatim>\<open>getBigIntPow\<close> of \<^verbatim>\<open>../../utils\<close>, which is not part of
  this file: one token in native smallest-unit scale, ten to the power of its decimals.
\<close>

definition getBigIntPow :: "nat \<Rightarrow> int" where
  "getBigIntPow n = 10 ^ n"

text \<open>The copy of the event states with \<^verbatim>\<open>delete eventPoolStates[addr]\<close> for each disabled pool.\<close>

definition delete_disabled :: "Address list \<Rightarrow> (Address \<rightharpoonup> 's) \<Rightarrow> (Address \<rightharpoonup> 's)" where
  "delete_disabled disabled eventPoolStates = fold (\<lambda>addr m. m(addr := None)) disabled eventPoolStates"

text \<open>The pools that exist neither in the event states nor in the non-event states.\<close>

definition missingPools ::
  "(Address \<rightharpoonup> 's) \<Rightarrow> (Address \<rightharpoonup> 's) \<Rightarrow> SubgraphPoolBase list \<Rightarrow> SubgraphPoolBase list" where
  "missingPools eventPoolStates nonEventPoolStates allowed =
     filter
       (\<lambda>pool. \<not> (eventPoolStates (toLowerCase (SubgraphPoolBase.address pool)) \<noteq> None
                  \<or> nonEventPoolStates (toLowerCase (SubgraphPoolBase.address pool)) \<noteq> None))
       allowed"

text \<open>
  The callback that prices one allowed pool; \<open>None\<close> is \<^verbatim>\<open>null\<close>, also when the inner
  \<^verbatim>\<open>try\<close> catches an exception.
\<close>

definition price_pool ::
  "('s, 'd, 'c, 'r) BalancerV2 \<Rightarrow> Token \<Rightarrow> Token \<Rightarrow> int list \<Rightarrow> int \<Rightarrow> SwapSide \<Rightarrow>
   (Address \<rightharpoonup> 's) \<Rightarrow> (Address \<rightharpoonup> 's) \<Rightarrow> (Address \<rightharpoonup> 's) \<Rightarrow> SubgraphPoolBase \<Rightarrow> PoolPrices option" where
  "price_pool dex from' to' amounts unitVolume side eventPoolStates nonEventPoolStates
       completePoolStates pool =
     (let poolAddress = toLowerCase (SubgraphPoolBase.address pool);
          found = (case eventPoolStates poolAddress of
                     Some st \<Rightarrow> Some st
                   | None \<Rightarrow> nonEventPoolStates poolAddress)
      in case found of
           None \<Rightarrow> None
         | Some st \<Rightarrow>
             (case getPricesPool (eventPools dex) from' to' pool completePoolStates amounts
                     unitVolume side of
                Inl e \<Rightarrow> None
              | Inr None \<Rightarrow> None
              | Inr (Some res) \<Rightarrow>
                  (let vid = split_first (id' pool) (toLowerCase (poolType pool));
                       addrs = poolAddress #
                         (case virtualBoostedPools (eventPools dex) vid of
                            None \<Rightarrow> []
                          | Some vb \<Rightarrow> map (\<lambda>t. toLowerCase (MainToken.linearPoolAddr t)) (mainTokens vb))
                   in Some \<lparr>unit = unit res, prices = prices res, gasCost = gasCost res,
                            data = \<lparr>poolId = id' pool\<rparr>,
                            poolAddresses = addrs,
                            exchange = dexKey dex,
                            poolIdentifier = dexKey dex @ ''_'' @ id' pool\<rparr>)))"

text \<open>
  \<^verbatim>\<open>getPricesVolume\<close>: the cache afterwards and the result, \<open>None\<close> for \<^verbatim>\<open>null\<close>, also
  when the outer \<^verbatim>\<open>try\<close> catches an exception.
\<close>

definition getPricesVolume ::
  "('s, 'd, 'c, 'r) BalancerV2 \<Rightarrow> Token \<Rightarrow> Token \<Rightarrow> int list \<Rightarrow> SwapSide \<Rightarrow> nat \<Rightarrow> string list option \<Rightarrow>
   's PoolStateCache \<times> PoolPrices list option" where
  "getPricesVolume dex from to amounts side bn limitPools =
     (let cache = nonEventPoolStateCache dex in
      if side = BUY then (cache, None)
      else
        let from' = wrapETH dex from; to' = wrapETH dex to;
            poolsWithTokens = getPools dex from' to';
            allowed = allowedPools dex limitPools poolsWithTokens
        in
        if allowed = [] then (cache, None)
        else
          let unitVolume = getBigIntPow (Token.decimals (if side = SELL then from' else to')) in
          case getState (eventPools dex) bn of
            Inl e \<Rightarrow> (cache, None)
          | Inr eventPoolStatesRO \<Rightarrow>
              (let ro = (case eventPoolStatesRO of None \<Rightarrow> Map.empty | Some m \<Rightarrow> m);
                   eventPoolStates = delete_disabled (eventDisabledPools dex) ro
               in case getNonEventPoolStateCache cache bn of
                 (cache1, nonEventPoolStates) \<Rightarrow>
                   (let missing = missingPools eventPoolStates nonEventPoolStates allowed
                    in case (if missing \<noteq> [] then
                               (case getOnChainState (eventPools dex) missing bn of
                                  Inl e \<Rightarrow> Inl e
                                | Inr missingPoolsStateMap \<Rightarrow>
                                    Inr (updateNonEventPoolStateCache cache1 missingPoolsStateMap bn))
                             else Inr (cache1, nonEventPoolStates)) of
                         Inl e \<Rightarrow> (cache1, None)
                       | Inr (cache2, nonEventPoolStates2) \<Rightarrow>
                           (cache2,
                            Some (List.map_filter
                              (price_pool dex from' to' amounts unitVolume side eventPoolStates
                                 nonEventPoolStates2 (ro ++ nonEventPoolStates2))
                              allowed)))))"

subsection \<open>Auxiliary definitions\<close>

text \<open>
  The store and the map that the cloning loop of \<^verbatim>\<open>processLog\<close> produces from a
  well-formed input: the clones are appended in order.
\<close>

definition cloned_heap :: "('t, 'p) heap \<Rightarrow> PoolStateMapRef \<Rightarrow> ('t, 'p) heap" where
  "cloned_heap h s = h @ map (\<lambda>(a, r). h ! r) s"

definition cloned_state :: "('t, 'p) heap \<Rightarrow> PoolStateMapRef \<Rightarrow> PoolStateMapRef" where
  "cloned_state h s = zip (map fst s) [length h ..< length h + length s]"

text \<open>The net change of token \<open>u\<close> over the listed tokens, from index \<open>i\<close> on.\<close>

fun net_change :: "Address \<Rightarrow> Address list \<Rightarrow> int list \<Rightarrow> int list \<Rightarrow> nat \<Rightarrow> int" where
  "net_change u [] deltas fees i = 0"
| "net_change u (t # ts) deltas fees i =
     (if t = u then deltas ! i - fees ! i else 0) + net_change u ts deltas fees (Suc i)"

text \<open>
  Modelled from the spec: \<^verbatim>\<open>VirtualBoostedPool.createPools\<close> is not part of this file. The
  Virtual Pool Composer synthesizes one descriptor tagged \<^verbatim>\<open>VirtualBoosted\<close> for each Virtual
  Pool Group, so every such descriptor of the pool list has its group in the dictionary,
  under the key that the allow-list filter looks up.
\<close>

definition virtual_pools_composed :: "('s, 'd, 'c, 'r) BalancerV2 \<Rightarrow> bool" where
  "virtual_pools_composed dex \<longleftrightarrow>
     (\<forall>p \<in> set (allPools (eventPools dex)).
        poolType p = ''VirtualBoosted'' \<longrightarrow>
        virtualBoostedPools (eventPools dex) (split_first (id' p) (toLowerCase (poolType p))) \<noteq> None)"

subsection \<open>Example data\<close>

text \<open>
  Two tracked pools over the tokens A and B, with balances 1000/2000 and 5000/5000; events
  carry checksummed (mixed-case) addresses, the snapshot is keyed by lower-case ones.
\<close>

definition ex_A :: Address where "ex_A = ''0xaaaaaaaaaaaaaaaaaaaaaaaaaaaaaaaaaaaaaaaa''"
definition ex_B :: Address where "ex_B = ''0xbbbbbbbbbbbbbbbbbbbbbbbbbbbbbbbbbbbbbbbb''"
definition ex_C :: Address where "ex_C = ''0xcccccccccccccccccccccccccccccccccccccccc''"
definition ex_A_sum :: Address where "ex_A_sum = ''0xAAaaAAaaAAaaAAaaAAaaAAaaAAaaAAaaAAaaAAaa''"
definition ex_B_sum :: Address where "ex_B_sum = ''0xBBbbBBbbBBbbBBbbBBbbBBbbBBbbBBbbBBbbBBbb''"
definition ex_C_sum :: Address where "ex_C_sum = ''0xCCccCCccCCccCCccCCccCCccCCccCCccCCccCCcc''"
definition ex_P1 :: Address where "ex_P1 = ''0x1111111111111111111111111111111111111111''"
definition ex_P2 :: Address where "ex_P2 = ''0x2222222222222222222222222222222222222222''"
definition ex_P1_id :: string where
  "ex_P1_id = ''0x1111111111111111111111111111111111111111000200000000000000000001''"
definition ex_P3_id :: string where
  "ex_P3_id = ''0x3333333333333333333333333333333333333333000200000000000000000003''"

definition ex_pool1 :: "(unit, unit) PoolState_scheme" where
  "ex_pool1 = \<lparr>tokens = [ex_A \<mapsto> \<lparr>balance = 1000\<rparr>, ex_B \<mapsto> \<lparr>balance = 2000\<rparr>]\<rparr>"
definition ex_pool2 :: "(unit, unit) PoolState_scheme" where
  "ex_pool2 = \<lparr>tokens = [ex_A \<mapsto> \<lparr>balance = 5000\<rparr>, ex_B \<mapsto> \<lparr>balance = 5000\<rparr>]\<rparr>"
definition ex_heap :: "(unit, unit) heap" where "ex_heap = [ex_pool1, ex_pool2]"
definition ex_state :: PoolStateMapRef where "ex_state = [(ex_P1, 0), (ex_P2, 1)]"

definition ex_swap :: event where
  "ex_swap = \<lparr>name = ''Swap'', args = SwapArgs ex_P1_id ex_A_sum ex_B_sum 50 95\<rparr>"

definition ex_change :: event where
  "ex_change = \<lparr>name = ''PoolBalanceChanged'',
     args = PoolBalanceChangedArgs ex_P1_id ex_C_sum [ex_A_sum, ex_B_sum] [100, - 50] [1, 0]\<rparr>"

definition ex_swap_untracked :: event where
  "ex_swap_untracked = \<lparr>name = ''Swap'', args = SwapArgs ex_P3_id ex_A_sum ex_B_sum 50 95\<rparr>"

definition ex_swap_absent :: event where
  "ex_swap_absent = \<lparr>name = ''Swap'', args = SwapArgs ex_P1_id ex_A_sum ex_C_sum 50 95\<rparr>"

text \<open>
  The two pools as the pool-list provider describes them, a request to sell A for B, and a
  \<^verbatim>\<open>BalancerV2\<close> object whose Disabled-Pool Set holds pool P1.
\<close>

definition ex_from :: Token where
  "ex_from = \<lparr>Token.address = ex_A_sum, Token.decimals = 0, symbol = Some ''A''\<rparr>"

definition ex_to :: Token where
  "ex_to = \<lparr>Token.address = ex_B_sum, Token.decimals = 0, symbol = Some ''B''\<rparr>"

definition ex_sub_tokens :: "SubgraphToken list" where
  "ex_sub_tokens =
     [\<lparr>SubgraphToken.address = ex_A, SubgraphToken.decimals = 0, SubgraphToken.linearPoolAddr = None\<rparr>,
      \<lparr>SubgraphToken.address = ex_B, SubgraphToken.decimals = 0, SubgraphToken.linearPoolAddr = None\<rparr>]"

definition ex_P2_id :: string where
  "ex_P2_id = ''0x2222222222222222222222222222222222222222000000000000000000000002''"

definition ex_sub1 :: SubgraphPoolBase where
  "ex_sub1 = \<lparr>id' = ex_P1_id, SubgraphPoolBase.address = ex_P1, poolType = ''Weighted'',
     SubgraphPoolBase.tokens = ex_sub_tokens, mainIndex = 0, wrappedIndex = 0, totalLiquidity = ''3000''\<rparr>"

definition ex_sub2 :: SubgraphPoolBase where
  "ex_sub2 = \<lparr>id' = ex_P2_id, SubgraphPoolBase.address = ex_P2, poolType = ''Stable'',
     SubgraphPoolBase.tokens = ex_sub_tokens, mainIndex = 0, wrappedIndex = 0, totalLiquidity = ''10000''\<rparr>"

text \<open>
  A toy strategy: the pair data are the two balances, a request is accepted when no amount
  exceeds the balance of the token sold, and the price is that of a constant product.
  A pool's on-chain state is read by one call, the pool's address.
\<close>

definition ex_strategy ::
  "((unit, unit) PoolState_scheme, int \<times> int, Address, (unit, unit) PoolState_scheme) strategy" where
  "ex_strategy =
     \<lparr>parsePoolPairData = (\<lambda>pool states tokenIn tokenOut vbp.
          case states (toLowerCase (SubgraphPoolBase.address pool)) of
            None \<Rightarrow> Inl TypeError
          | Some st \<Rightarrow>
              (case (tokens st (toLowerCase tokenIn), tokens st (toLowerCase tokenOut)) of
                 (Some i, Some out) \<Rightarrow> Inr (balance i, balance out)
               | _ \<Rightarrow> Inl TypeError)),
      checkBalance = (\<lambda>amounts unitVolume side (bi, bo). Inr (list_all (\<lambda>a. a \<le> bi) amounts)),
      onSell = (\<lambda>amounts (bi, bo). Inr (map (\<lambda>a. (bo * a) div (bi + a)) amounts)),
      pairGasCost = (\<lambda>d. 150000),
      getOnChainCalls = (\<lambda>pool vbp. [toLowerCase (SubgraphPoolBase.address pool)]),
      decodeOnChainCalls = (\<lambda>pool ret i vbp.
          if i < length ret then Inr ([toLowerCase (SubgraphPoolBase.address pool) \<mapsto> ret ! i], Suc i)
          else Inl TypeError)\<rparr>"

text \<open>The chain at the requested block: pool P1 holds 1200/1800 there.\<close>

definition ex_chain :: "Address \<Rightarrow> (unit, unit) PoolState_scheme" where
  "ex_chain a =
     (if a = ex_P1 then \<lparr>tokens = [ex_A \<mapsto> \<lparr>balance = 1200\<rparr>, ex_B \<mapsto> \<lparr>balance = 1800\<rparr>]\<rparr>
      else ex_pool2)"

definition ex_eventPools ::
  "((unit, unit) PoolState_scheme, int \<times> int, Address, (unit, unit) PoolState_scheme) BalancerV2EventPool" where
  "ex_eventPools =
     \<lparr>pools = pools_registry ex_strategy ex_strategy ex_strategy ex_strategy ex_strategy,
      allPools = [ex_sub1, ex_sub2],
      virtualBoostedPools = Map.empty,
      getState = (\<lambda>bn. Inr (Some [ex_P1 \<mapsto> ex_pool1, ex_P2 \<mapsto> ex_pool2])),
      tryAggregate = (\<lambda>calls bn. Inr (map ex_chain calls))\<rparr>"

definition ex_dex ::
  "((unit, unit) PoolState_scheme, int \<times> int, Address, (unit, unit) PoolState_scheme) BalancerV2" where
  "ex_dex =
     \<lparr>dexKey = ''BalancerV2'',
      adapters = Some [\<lparr>Adapter.name = ''Adapter01'', index = 9\<rparr>],
      eventPools = ex_eventPools,
      eventDisabledPools = [ex_P1],
      nonEventPoolStateCache = \<lparr>blockNumber = 0, poolState = Map.empty\<rparr>,
      wrapETH = (\<lambda>t. t)\<rparr>"

definition ex_quote1 :: PoolPrices where
  "ex_quote1 = \<lparr>unit = Some 1, prices = [0, 138, 529], gasCost = 150000, data = \<lparr>poolId = ex_P1_id\<rparr>,
     poolAddresses = [ex_P1], exchange = ''BalancerV2'', poolIdentifier = ''BalancerV2_'' @ ex_P1_id\<rparr>"

definition ex_quote2 :: PoolPrices where
  "ex_quote2 = \<lparr>unit = Some 0, prices = [0, 98, 454], gasCost = 150000, data = \<lparr>poolId = ex_P2_id\<rparr>,
     poolAddresses = [ex_P2], exchange = ''BalancerV2'', poolIdentifier = ''BalancerV2_'' @ ex_P2_id\<rparr>"

definition ex_eventPools_no_snapshot ::
  "((unit, unit) PoolState_scheme, int \<times> int, Address, (unit, unit) PoolState_scheme) BalancerV2EventPool" where
  "ex_eventPools_no_snapshot = ex_eventPools\<lparr>getState := (\<lambda>bn. Inr None)\<rparr>"

definition ex_dex_no_snap ::
  "((unit, unit) PoolState_scheme, int \<times> int, Address, (unit, unit) PoolState_scheme) BalancerV2" where
  "ex_dex_no_snap = ex_dex\<lparr>eventPools := ex_eventPools_no_snapshot, eventDisabledPools := []\<rparr>"

definition ex_limitPools :: "string list" where
  "ex_limitPools = [''BalancerV2_'' @ ex_P2]"

definition ex_tagged_calls :: "((unit, unit) PoolState_scheme \<times> nat) cache_call list" where
  "ex_tagged_calls = [Update [ex_P1 \<mapsto> (ex_pool1, 5)] 5, Get 7, Update [ex_P2 \<mapsto> (ex_pool2, 7)] 7]"

text \<open>
  A composed pool list: the virtual boosted pool V of the hub 0x44.., with the linear pools
  L1 and L2 as the spokes of its main tokens A and B, beside the plain pool P2; allow-lists
  with and without the second spoke.
\<close>

definition ex_V :: Address where "ex_V = ''0x4444444444444444444444444444444444444444''"
definition ex_L1 :: Address where "ex_L1 = ''0x5555555555555555555555555555555555555555''"
definition ex_L2 :: Address where "ex_L2 = ''0x6666666666666666666666666666666666666666''"
definition ex_hub_id :: string where
  "ex_hub_id = ''0x44444444444444444444444444444444444444440000000000000000000000fe''"

definition ex_vsub :: SubgraphPoolBase where
  "ex_vsub = \<lparr>id' = ex_hub_id @ ''virtualboosted'', SubgraphPoolBase.address = ex_V,
     poolType = ''VirtualBoosted'',
     SubgraphPoolBase.tokens =
       [\<lparr>SubgraphToken.address = ex_A, SubgraphToken.decimals = 0, SubgraphToken.linearPoolAddr = Some ex_L1\<rparr>,
        \<lparr>SubgraphToken.address = ex_B, SubgraphToken.decimals = 0, SubgraphToken.linearPoolAddr = Some ex_L2\<rparr>],
     mainIndex = 0, wrappedIndex = 0, totalLiquidity = ''10000''\<rparr>"

definition ex_group :: BoostedPool where
  "ex_group = \<lparr>mainTokens =
     [\<lparr>MainToken.address = ex_A, MainToken.decimals = 0, MainToken.linearPoolAddr = ex_L1\<rparr>,
      \<lparr>MainToken.address = ex_B, MainToken.decimals = 0, MainToken.linearPoolAddr = ex_L2\<rparr>]\<rparr>"

definition ex_eventPools_virtual ::
  "((unit, unit) PoolState_scheme, int \<times> int, Address, (unit, unit) PoolState_scheme) BalancerV2EventPool" where
  "ex_eventPools_virtual =
     ex_eventPools\<lparr>allPools := [ex_vsub, ex_sub2], virtualBoostedPools := [ex_hub_id \<mapsto> ex_group]\<rparr>"

definition ex_dex_virtual ::
  "((unit, unit) PoolState_scheme, int \<times> int, Address, (unit, unit) PoolState_scheme) BalancerV2" where
  "ex_dex_virtual = ex_dex\<lparr>eventPools := ex_eventPools_virtual, eventDisabledPools := []\<rparr>"

definition ex_limit_virtual :: "string list" where
  "ex_limit_virtual =
     [''BalancerV2_'' @ ex_V, ''BalancerV2_'' @ ex_V @ ''virtualboosted'',
      ''BalancerV2_'' @ ex_L1, ''BalancerV2_'' @ ex_L2]"

definition ex_limit_no_spoke :: "string list" where
  "ex_limit_no_spoke =
     [''BalancerV2_'' @ ex_V, ''BalancerV2_'' @ ex_V @ ''virtualboosted'', ''BalancerV2_'' @ ex_L1]"

definition ex_quote3 :: PoolPrices where
  "ex_quote3 = \<lparr>unit = Some 0, prices = [0, 98, 454], gasCost = 150000,
     data = \<lparr>poolId = ex_hub_id @ ''virtualboosted''\<rparr>,
     poolAddresses = [ex_V, ex_L1, ex_L2], exchange = ''BalancerV2'',
     poolIdentifier = ''BalancerV2_'' @ ex_hub_id @ ''virtualboosted''\<rparr>"

text \<open>A chain that cannot be read: no snapshot for the block, and every multicall fails.\<close>

definition ex_eventPools_unreachable ::
  "((unit, unit) PoolState_scheme, int \<times> int, Address, (unit, unit) PoolState_scheme) BalancerV2EventPool" where
  "ex_eventPools_unreachable = ex_eventPools_no_snapshot\<lparr>tryAggregate := (\<lambda>calls bn. Inl FetchError)\<rparr>"

definition ex_dex_unreachable ::
  "((unit, unit) PoolState_scheme, int \<times> int, Address, (unit, unit) PoolState_scheme) BalancerV2" where
  "ex_dex_unreachable = ex_dex_no_snap\<lparr>eventPools := ex_eventPools_unreachable\<rparr>"

section \<open>Properties\<close>

subsection \<open>Cloning\<close>

lemma update_fresh_key: "k \<notin> fst ` set al \<Longrightarrow> AList.update k v al = al @ [(k, v)]"
  by (induction al) auto

lemma clone_entries_closed:
  "distinct (map fst s) \<Longrightarrow> fst ` set s \<inter> fst ` set acc = {} \<Longrightarrow> \<forall>r \<in> snd ` set s. r < length h \<Longrightarrow>
   clone_entries h acc s =
     (h @ map (\<lambda>(a, r). h ! r) s, acc @ zip (map fst s) [length h ..< length h + length s])"
proof (induction s arbitrary: h acc)
  case Nil
  then show ?case by simp
next
  case (Cons p s)
  obtain a r where p: "p = (a, r)" by (cases p)
  have fresh: "a \<notin> fst ` set acc" using Cons.prems(2) p by auto
  have r: "r < length h" using Cons.prems(3) p by simp
  let ?h1 = "h @ [h ! r]"
  have nth_eq: "map (\<lambda>(a, r). ?h1 ! r) s = map (\<lambda>(a, r). h ! r) s"
    using Cons.prems(3) by (auto simp: nth_append)
  have ih: "clone_entries ?h1 (acc @ [(a, length h)]) s =
     (?h1 @ map (\<lambda>(a, r). ?h1 ! r) s,
      (acc @ [(a, length h)]) @ zip (map fst s) [length ?h1 ..< length ?h1 + length s])"
  proof (rule Cons.IH)
    show "distinct (map fst s)" using Cons.prems(1) by simp
    show "fst ` set s \<inter> fst ` set (acc @ [(a, length h)]) = {}"
      using Cons.prems(1,2) p by auto
    show "\<forall>r\<in>snd ` set s. r < length ?h1" using Cons.prems(3) by auto
  qed
  have upt: "[length h ..< length h + length (p # s)] = length h # [Suc (length h) ..< Suc (length h) + length s]"
    using upt_rec [of "length h" "length h + length (p # s)"] by simp
  show ?case
    unfolding upt
    by (simp add: p typecastReadOnlyPoolState_def update_fresh_key [OF fresh] ih nth_eq)
qed

lemma clone_entries_wf:
  "wf_state h s \<Longrightarrow> clone_entries h [] s = (cloned_heap h s, cloned_state h s)"
  using clone_entries_closed [of s "[]" h]
  by (simp add: wf_state_def cloned_heap_def cloned_state_def)

lemma length_cloned_heap: "length (cloned_heap h s) = length h + length s"
  by (simp add: cloned_heap_def)

lemma take_cloned_heap: "take (length h) (cloned_heap h s) = h"
  by (simp add: cloned_heap_def)

lemma keys_cloned_state: "map fst (cloned_state h s) = map fst s"
  by (simp add: cloned_state_def)

lemma refs_cloned_state: "map snd (cloned_state h s) = [length h ..< length h + length s]"
  by (simp add: cloned_state_def)

lemma snapshot_cloned: "snapshot (cloned_heap h s) (cloned_state h s) = snapshot h s"
proof -
  have "map ((!) (cloned_heap h s)) [length h ..< length h + length s] = map (\<lambda>(a, r). h ! r) s"
    unfolding cloned_heap_def by (simp add: map_upt_eqI)
  then have "zip (map fst s) (map ((!) (cloned_heap h s)) [length h ..< length h + length s])
      = zip (map fst s) (map (\<lambda>(a, r). h ! r) s)"
    by simp
  moreover have "zip (map fst s) (map (\<lambda>(a, r). h ! r) s) = map (\<lambda>(a, r). (a, h ! r)) s"
    by (induction s) auto
  moreover have "map (\<lambda>(a, r). (a, cloned_heap h s ! r)) (zip (map fst s) [length h ..< length h + length s])
      = zip (map fst s) (map ((!) (cloned_heap h s)) [length h ..< length h + length s])"
    by (simp add: zip_map2 case_prod_unfold)
  ultimately show ?thesis
    by (simp add: snapshot_def cloned_state_def)
qed

lemma lookup_pool_snapshot: "lookup_pool h s = map_of (snapshot h s)"
proof (rule ext)
  fix a
  have "map_of (map (\<lambda>(k, r). (k, h ! r)) s) a = map_option (\<lambda>r. h ! r) (map_of s a)"
    by (induction s) auto
  then show "lookup_pool h s a = map_of (snapshot h s) a"
    by (simp add: lookup_pool_def snapshot_def)
qed

lemma lookup_pool_cloned: "lookup_pool (cloned_heap h s) (cloned_state h s) = lookup_pool h s"
  by (simp add: lookup_pool_snapshot snapshot_cloned)

lemma cloned_ref_bounds:
  assumes "map_of (cloned_state h s) a = Some r"
  shows "length h \<le> r \<and> r < length (cloned_heap h s)"
proof -
  have "r \<in> set (map snd (cloned_state h s))"
    using assms by (metis map_of_SomeD set_zip_rightD zip_map_fst_snd)
  then show ?thesis
    by (simp add: refs_cloned_state length_cloned_heap)
qed

lemma lookup_pool_update:
  assumes "distinct (map snd s)" and "map_of s a = Some r" and "r < length h"
  shows "lookup_pool (h[r := v]) s = (lookup_pool h s)(a \<mapsto> v)"
proof (rule ext)
  fix b
  show "lookup_pool (h[r := v]) s b = ((lookup_pool h s)(a \<mapsto> v)) b"
  proof (cases "b = a")
    case True
    then show ?thesis using assms by (simp add: lookup_pool_def)
  next
    case False
    show ?thesis
    proof (cases "map_of s b")
      case None
      then show ?thesis using False by (simp add: lookup_pool_def)
    next
      case (Some r')
      have "(a, r) \<in> set s" "(b, r') \<in> set s"
        using assms(2) Some by (auto dest: map_of_SomeD)
      moreover have "inj_on snd (set s)"
        using assms(1) by (simp add: distinct_map)
      ultimately have "r' \<noteq> r"
        using False inj_onD [of snd "set s" "(a, r)" "(b, r')"] by auto
      then show ?thesis using False Some by (simp add: lookup_pool_def)
    qed
  qed
qed

lemma distinct_refs_cloned: "distinct (map snd (cloned_state h s))"
  by (simp add: refs_cloned_state)

lemma update_balance_shape:
  "update_balance h r t f = Inr h1 \<Longrightarrow> \<exists>v. h1 = h[r := v]"
  by (auto simp: update_balance_def split: option.splits)

lemma handleSwap_shape: "\<exists>v. fst (handleSwap ev h r) = h[r := v]"
proof -
  have same: "\<exists>v. h = h[r := v]" by (metis list_update_id)
  show ?thesis
  proof (cases "args ev")
    case (SwapArgs pid tIn tOut aIn aOut)
    show ?thesis
    proof (cases "update_balance h r (toLowerCase tIn) (\<lambda>b. b + aIn)")
      case (Inl e)
      then show ?thesis using SwapArgs same by (simp add: handleSwap_def)
    next
      case (Inr h1)
      then obtain v where h1: "h1 = h[r := v]" using update_balance_shape by blast
      show ?thesis
      proof (cases "update_balance h1 r (toLowerCase tOut) (\<lambda>b. b - aOut)")
        case (Inl e)
        then show ?thesis using SwapArgs Inr h1 by (auto simp: handleSwap_def)
      next
        case (Inr h2)
        then obtain w where "h2 = h1[r := w]" using update_balance_shape by blast
        then have "h2 = h[r := w]" using h1 by simp
        then show ?thesis using SwapArgs \<open>update_balance h r (toLowerCase tIn) (\<lambda>b. b + aIn) = Inr h1\<close> Inr
          by (auto simp: handleSwap_def)
      qed
    qed
  next
    case (PoolBalanceChangedArgs pid lp ts ds fs)
    then show ?thesis using same by (simp add: handleSwap_def)
  next
    case OtherArgs
    then show ?thesis using same by (simp add: handleSwap_def)
  qed
qed

lemma handleSwap_ok:
  assumes r: "r < length h"
    and a: "args ev = SwapArgs pid tIn tOut aIn aOut"
    and tin: "tokens (h ! r) (toLowerCase tIn) = Some x"
    and tout: "tokens (h ! r) (toLowerCase tOut) = Some y"
  shows "handleSwap ev h r =
     (h[r := (h ! r)\<lparr>tokens := \<lambda>t. map_option
        (\<lambda>ts. ts\<lparr>balance := balance ts + (if t = toLowerCase tIn then aIn else 0)
                                     - (if t = toLowerCase tOut then aOut else 0)\<rparr>)
        (tokens (h ! r) t)\<rparr>], Inr r)"
proof -
  let ?i = "toLowerCase tIn" and ?o = "toLowerCase tOut"
  let ?P1 = "(h ! r)\<lparr>tokens := (tokens (h ! r))(?i \<mapsto> x\<lparr>balance := balance x + aIn\<rparr>)\<rparr>"
  have u1: "update_balance h r ?i (\<lambda>b. b + aIn) = Inr (h[r := ?P1])"
    using tin by (simp add: update_balance_def)
  have nth1: "h[r := ?P1] ! r = ?P1" using r by simp
  obtain y' where y': "tokens ?P1 ?o = Some y'"
    and y'_def: "y' = (if ?o = ?i then x\<lparr>balance := balance x + aIn\<rparr> else y)"
    using tout by simp
  let ?P2 = "?P1\<lparr>tokens := (tokens ?P1)(?o \<mapsto> y'\<lparr>balance := balance y' - aOut\<rparr>)\<rparr>"
  have u2: "update_balance (h[r := ?P1]) r ?o (\<lambda>b. b - aOut) = Inr (h[r := ?P2])"
    unfolding update_balance_def nth1 using y' by simp
  let ?Q = "(h ! r)\<lparr>tokens := \<lambda>t. map_option
        (\<lambda>ts. ts\<lparr>balance := balance ts + (if t = toLowerCase tIn then aIn else 0)
                                     - (if t = toLowerCase tOut then aOut else 0)\<rparr>)
        (tokens (h ! r) t)\<rparr>"
  have "tokens ?P2 = tokens ?Q"
    using tin tout by (auto simp: y'_def fun_eq_iff option.map_ident)
  then have "?P2 = ?Q"
    by simp
  then show ?thesis
    using a u1 u2 by (simp add: handleSwap_def)
qed

lemma handleSwap_throws:
  assumes r: "r < length h"
    and a: "args ev = SwapArgs pid tIn tOut aIn aOut"
    and miss: "tokens (h ! r) (toLowerCase tIn) = None \<or> tokens (h ! r) (toLowerCase tOut) = None"
  shows "\<exists>e. snd (handleSwap ev h r) = Inl e"
proof (cases "tokens (h ! r) (toLowerCase tIn)")
  case None
  then show ?thesis using a by (simp add: handleSwap_def update_balance_def)
next
  case (Some x)
  then have out: "tokens (h ! r) (toLowerCase tOut) = None" and ne: "toLowerCase tOut \<noteq> toLowerCase tIn"
    using miss by auto
  show ?thesis
    using a Some out ne r by (simp add: handleSwap_def update_balance_def)
qed

lemma handleSwap_bad_args:
  "(\<forall>pid tIn tOut aIn aOut. args ev \<noteq> SwapArgs pid tIn tOut aIn aOut) \<Longrightarrow> snd (handleSwap ev h r) = Inl TypeError"
  by (cases "args ev") (auto simp: handleSwap_def)

lemma update_balance_dom:
  "update_balance h r t f = Inr h1 \<Longrightarrow> r < length h \<Longrightarrow> (tokens (h1 ! r) u = None) = (tokens (h ! r) u = None)"
  by (auto simp: update_balance_def split: option.splits if_splits)

lemma update_balance_length:
  "update_balance h r t f = Inr h1 \<Longrightarrow> length h1 = length h"
  by (auto simp: update_balance_def split: option.splits)

lemma balance_changes_shape: "\<exists>v. fst (balance_changes h r deltas fees i ts) = h[r := v]"
proof (induction ts arbitrary: h i)
  case Nil
  show ?case by (metis balance_changes.simps(1) fst_conv list_update_id)
next
  case (Cons t ts)
  have same: "\<exists>v. h = h[r := v]" by (metis list_update_id)
  show ?case
  proof (cases "i < length deltas \<and> i < length fees")
    case False
    then show ?thesis using same by auto
  next
    case True
    show ?thesis
    proof (cases "update_balance h r t (\<lambda>b. b + (deltas ! i - fees ! i))")
      case (Inl e)
      then show ?thesis using True same by auto
    next
      case (Inr h1)
      then obtain v where h1: "h1 = h[r := v]" using update_balance_shape by blast
      obtain w where "fst (balance_changes h1 r deltas fees (Suc i) ts) = h1[r := w]"
        using Cons.IH by blast
      then have "fst (balance_changes h1 r deltas fees (Suc i) ts) = h[r := w]"
        using h1 by simp
      then show ?thesis using True Inr by auto
    qed
  qed
qed

lemma net_change_sum:
  "net_change u ts deltas fees i =
     (\<Sum>j\<leftarrow>[0..<length ts]. if ts ! j = u then deltas ! (i + j) - fees ! (i + j) else 0)"
proof (induction ts arbitrary: i)
  case Nil
  show ?case by simp
next
  case (Cons t ts)
  have "[0..<length (t # ts)] = 0 # map Suc [0..<length ts]"
    by (simp add: upt_conv_Cons map_Suc_upt del: upt_Suc)
  then show ?case
    by (simp add: Cons.IH comp_def del: upt_Suc cong: if_cong)
qed

lemma balance_changes_ok:
  assumes "r < length h"
    and "\<forall>t \<in> set ts. tokens (h ! r) t \<noteq> None"
    and "i + length ts \<le> length deltas" and "i + length ts \<le> length fees"
  shows "balance_changes h r deltas fees i ts =
     (h[r := (h ! r)\<lparr>tokens := \<lambda>u. map_option
          (\<lambda>x. x\<lparr>balance := balance x + net_change u ts deltas fees i\<rparr>) (tokens (h ! r) u)\<rparr>], Inr ())"
  using assms
proof (induction ts arbitrary: h i)
  case Nil
  have "(h ! r)\<lparr>tokens := \<lambda>u. map_option (\<lambda>x. x\<lparr>balance := balance x + 0\<rparr>) (tokens (h ! r) u)\<rparr> = h ! r"
    by (simp add: option.map_ident)
  then show ?case by simp
next
  case (Cons t ts)
  obtain x where x: "tokens (h ! r) t = Some x" using Cons.prems(2) by auto
  let ?d = "deltas ! i - fees ! i"
  let ?P1 = "(h ! r)\<lparr>tokens := (tokens (h ! r))(t \<mapsto> x\<lparr>balance := balance x + ?d\<rparr>)\<rparr>"
  let ?h1 = "h[r := ?P1]"
  have u1: "update_balance h r t (\<lambda>b. b + ?d) = Inr ?h1"
    using x by (simp add: update_balance_def)
  have nth1: "?h1 ! r = ?P1" using Cons.prems(1) by simp
  have ih: "balance_changes ?h1 r deltas fees (Suc i) ts =
     (?h1[r := (?h1 ! r)\<lparr>tokens := \<lambda>u. map_option
          (\<lambda>x. x\<lparr>balance := balance x + net_change u ts deltas fees (Suc i)\<rparr>) (tokens (?h1 ! r) u)\<rparr>], Inr ())"
  proof (rule Cons.IH)
    show "r < length ?h1" using Cons.prems(1) by simp
    show "\<forall>t\<in>set ts. tokens (?h1 ! r) t \<noteq> None"
      unfolding nth1 using Cons.prems(2) by simp
    show "Suc i + length ts \<le> length deltas" using Cons.prems(3) by simp
    show "Suc i + length ts \<le> length fees" using Cons.prems(4) by simp
  qed
  have rec_eq: "?P1\<lparr>tokens := \<lambda>u. map_option
          (\<lambda>x. x\<lparr>balance := balance x + net_change u ts deltas fees (Suc i)\<rparr>) (tokens ?P1 u)\<rparr>
      = (h ! r)\<lparr>tokens := \<lambda>u. map_option
          (\<lambda>x. x\<lparr>balance := balance x + net_change u (t # ts) deltas fees i\<rparr>) (tokens (h ! r) u)\<rparr>"
    using x by (auto simp: fun_eq_iff)
  have bounds: "i < length deltas \<and> i < length fees" using Cons.prems(3,4) by simp
  show ?case
    using bounds u1 ih unfolding nth1 rec_eq by simp
qed

lemma balance_changes_throws:
  assumes "r < length h"
    and "\<exists>k < length ts. tokens (h ! r) (ts ! k) = None \<or> length deltas \<le> i + k \<or> length fees \<le> i + k"
  shows "\<exists>e. snd (balance_changes h r deltas fees i ts) = Inl e"
  using assms
proof (induction ts arbitrary: h i)
  case Nil
  then show ?case by simp
next
  case (Cons t ts)
  show ?case
  proof (cases "i < length deltas \<and> i < length fees")
    case False
    then show ?thesis by auto
  next
    case True
    show ?thesis
    proof (cases "update_balance h r t (\<lambda>b. b + (deltas ! i - fees ! i))")
      case (Inl e)
      then show ?thesis using True by auto
    next
      case (Inr h1)
      then have t: "tokens (h ! r) t \<noteq> None"
        by (auto simp: update_balance_def split: option.splits)
      obtain k where k: "k < length (t # ts)"
        "tokens (h ! r) ((t # ts) ! k) = None \<or> length deltas \<le> i + k \<or> length fees \<le> i + k"
        using Cons.prems(2) by blast
      then obtain k' where k': "k = Suc k'" using t True by (cases k) auto
      have len: "length h1 = length h"
        using Inr by (rule update_balance_length)
      have "\<exists>e. snd (balance_changes h1 r deltas fees (Suc i) ts) = Inl e"
      proof (rule Cons.IH)
        show "r < length h1" using len Cons.prems(1) by simp
        have "k' < length ts" using k(1) k' by simp
        moreover have "tokens (h1 ! r) (ts ! k') = None \<or> length deltas \<le> Suc i + k' \<or> length fees \<le> Suc i + k'"
          using k(2) k' update_balance_dom [OF Inr Cons.prems(1)] by auto
        ultimately show "\<exists>k<length ts. tokens (h1 ! r) (ts ! k) = None \<or> length deltas \<le> Suc i + k \<or> length fees \<le> Suc i + k"
          by blast
      qed
      then show ?thesis using True Inr by auto
    qed
  qed
qed

lemma handlePoolBalanceChanged_shape: "\<exists>v. fst (handlePoolBalanceChanged ev h r) = h[r := v]"
proof (cases "args ev")
  case (PoolBalanceChangedArgs pid lp toks ds fs)
  obtain v where "fst (balance_changes h r ds fs 0 (map toLowerCase toks)) = h[r := v]"
    using balance_changes_shape by blast
  then show ?thesis using PoolBalanceChangedArgs
    by (auto simp: handlePoolBalanceChanged_def split: prod.splits sum.splits)
next
  case (SwapArgs pid tIn tOut aIn aOut)
  then show ?thesis by (simp add: handlePoolBalanceChanged_def) (metis list_update_id)
next
  case OtherArgs
  then show ?thesis by (simp add: handlePoolBalanceChanged_def) (metis list_update_id)
qed

lemma handlePoolBalanceChanged_ok:
  assumes "r < length h"
    and "args ev = PoolBalanceChangedArgs pid lp toks ds fs"
    and "\<forall>t \<in> set toks. tokens (h ! r) (toLowerCase t) \<noteq> None"
    and "length toks \<le> length ds" and "length toks \<le> length fs"
  shows "handlePoolBalanceChanged ev h r =
     (h[r := (h ! r)\<lparr>tokens := \<lambda>u. map_option
          (\<lambda>x. x\<lparr>balance := balance x + net_change u (map toLowerCase toks) ds fs 0\<rparr>) (tokens (h ! r) u)\<rparr>], Inr r)"
proof -
  have "balance_changes h r ds fs 0 (map toLowerCase toks) =
     (h[r := (h ! r)\<lparr>tokens := \<lambda>u. map_option
          (\<lambda>x. x\<lparr>balance := balance x + net_change u (map toLowerCase toks) ds fs 0\<rparr>) (tokens (h ! r) u)\<rparr>], Inr ())"
    using assms by (intro balance_changes_ok) auto
  then show ?thesis using assms(2) by (simp add: handlePoolBalanceChanged_def)
qed

lemma handlePoolBalanceChanged_throws:
  assumes "r < length h"
    and "args ev = PoolBalanceChangedArgs pid lp toks ds fs"
    and "\<exists>k < length toks. tokens (h ! r) (toLowerCase (toks ! k)) = None \<or> length ds \<le> k \<or> length fs \<le> k"
  shows "\<exists>e. snd (handlePoolBalanceChanged ev h r) = Inl e"
proof -
  have "\<exists>e. snd (balance_changes h r ds fs 0 (map toLowerCase toks)) = Inl e"
    using assms by (intro balance_changes_throws) auto
  then show ?thesis using assms(2)
    by (auto simp: handlePoolBalanceChanged_def split: prod.splits sum.splits)
qed

lemma handlePoolBalanceChanged_bad_args:
  "(\<forall>pid lp toks ds fs. args ev \<noteq> PoolBalanceChangedArgs pid lp toks ds fs) \<Longrightarrow>
   snd (handlePoolBalanceChanged ev h r) = Inl TypeError"
  by (cases "args ev") (auto simp: handlePoolBalanceChanged_def)

lemma handlers_cases:
  "handlers n = Some f \<Longrightarrow>
     (n = ''Swap'' \<and> f = handleSwap) \<or> (n = ''PoolBalanceChanged'' \<and> f = handlePoolBalanceChanged)"
  by (auto simp: handlers_def split: if_splits)

lemma handlers_Swap: "handlers ''Swap'' = Some handleSwap"
  by (simp add: handlers_def)

lemma handlers_PoolBalanceChanged: "handlers ''PoolBalanceChanged'' = Some handlePoolBalanceChanged"
  by (simp add: handlers_def)

lemma handlers_None: "n \<noteq> ''Swap'' \<Longrightarrow> n \<noteq> ''PoolBalanceChanged'' \<Longrightarrow> handlers n = None"
  by (simp add: handlers_def)

lemma handler_shape: "handlers n = Some f \<Longrightarrow> \<exists>v. fst (f ev h r) = h[r := v]"
  using handlers_cases [of n f] handleSwap_shape handlePoolBalanceChanged_shape by blast

lemma processLog_frame:
  assumes wf: "wf_state h state"
  shows "take (length h) (fst (processLog vaultDecoder h state log)) = h"
proof -
  let ?h0 = "cloned_heap h state" and ?s = "cloned_state h state"
  have base: "take (length h) ?h0 = h" by (rule take_cloned_heap)
  have upd: "take (length h) h1 = h"
    if hf: "handlers n = Some f" and mr: "map_of ?s a = Some r" and run: "f ev ?h0 r = (h1, res)"
    for n f ev a r h1 res
  proof -
    obtain v where "fst (f ev ?h0 r) = ?h0[r := v]" using handler_shape [OF hf] by blast
    moreover have "length h \<le> r" using cloned_ref_bounds [OF mr] by simp
    ultimately show ?thesis using base run by simp
  qed
  show ?thesis
    unfolding processLog_def clone_entries_wf [OF wf]
    by (auto simp: base Let_def split: sum.splits option.splits prod.splits dest: upd)
qed

lemma processLog_untracked:
  assumes wf: "wf_state h state" and dec: "vaultDecoder log = Inr ev"
    and no: "(name ev \<noteq> ''Swap'' \<and> name ev \<noteq> ''PoolBalanceChanged'') \<or>
       (\<exists>pid. args_poolId (args ev) = Some pid \<and> map_of state (toLowerCase (take 42 pid)) = None)"
  shows "processLog vaultDecoder h state log = (cloned_heap h state, Some (cloned_state h state))"
proof -
  have keys: "map_of (cloned_state h state) a = None" if "map_of state a = None" for a
    using that keys_cloned_state [of h state] by (metis map_of_eq_None_iff set_map)
  show ?thesis
    using no unfolding processLog_def clone_entries_wf [OF wf]
    by (auto simp: dec Let_def keys handlers_None split: option.splits)
qed

lemma processLog_tracked:
  assumes wf: "wf_state h state" and dec: "vaultDecoder log = Inr ev"
    and hd: "handlers (name ev) = Some handler"
    and pid: "args_poolId (args ev) = Some pid"
    and pool: "lookup_pool h state (toLowerCase (take 42 pid)) = Some pool"
  shows "\<exists>r. map_of (cloned_state h state) (toLowerCase (take 42 pid)) = Some r
     \<and> r < length (cloned_heap h state) \<and> cloned_heap h state ! r = pool
     \<and> processLog vaultDecoder h state log =
         (case handler ev (cloned_heap h state) r of
            (h1, Inl e) \<Rightarrow> (h1, None)
          | (h1, Inr pool1) \<Rightarrow> (h1, Some (AList.update (toLowerCase (take 42 pid)) pool1 (cloned_state h state))))"
proof -
  let ?a = "toLowerCase (take 42 pid)"
  have "lookup_pool (cloned_heap h state) (cloned_state h state) ?a = Some pool"
    using pool by (simp add: lookup_pool_cloned)
  then obtain r where r: "map_of (cloned_state h state) ?a = Some r" "cloned_heap h state ! r = pool"
    by (auto simp: lookup_pool_def)
  have "r < length (cloned_heap h state)" using cloned_ref_bounds [OF r(1)] by simp
  moreover have "processLog vaultDecoder h state log =
         (case handler ev (cloned_heap h state) r of
            (h1, Inl e) \<Rightarrow> (h1, None)
          | (h1, Inr pool1) \<Rightarrow> (h1, Some (AList.update ?a pool1 (cloned_state h state))))"
    unfolding processLog_def clone_entries_wf [OF wf]
    by (simp add: dec hd pid r(1) Let_def)
  ultimately show ?thesis using r by blast
qed

lemma snapshot_frame:
  assumes "wf_state h state" and "take (length h) h1 = h"
  shows "snapshot h1 state = snapshot h state"
proof -
  have "h1 ! r = h ! r" if "r < length h" for r
    using that assms(2) by (metis nth_take)
  then show ?thesis
    using assms(1) by (auto simp: snapshot_def wf_state_def)
qed

subsection \<open>Facts about the example data\<close>

lemma ex_lower:
  "toLowerCase ex_A_sum = ex_A" "toLowerCase ex_B_sum = ex_B" "toLowerCase ex_C_sum = ex_C"
  "toLowerCase (take 42 ex_P1_id) = ex_P1"
  "toLowerCase (take 42 ex_P3_id) = ''0x3333333333333333333333333333333333333333''"
  by code_simp+

lemma ex_distinct: "ex_A \<noteq> ex_B" "ex_P1 \<noteq> ex_P2" "ex_A \<noteq> ex_C" "ex_B \<noteq> ex_C"
   "ex_P1 \<noteq> ''0x3333333333333333333333333333333333333333''"
   "ex_P2 \<noteq> ''0x3333333333333333333333333333333333333333''"
  by (simp_all add: ex_A_def ex_B_def ex_C_def ex_P1_def ex_P2_def)

lemma ex_wf: "wf_state ex_heap ex_state"
  by (simp add: wf_state_def ex_heap_def ex_state_def ex_distinct)

lemma ex_lookup:
  "lookup_pool ex_heap ex_state ex_P1 = Some ex_pool1"
  "lookup_pool ex_heap ex_state ex_P2 = Some ex_pool2"
  using ex_distinct by (simp_all add: lookup_pool_def ex_heap_def ex_state_def)

subsection \<open>The claims on processLog\<close>

text \<open>
  Claim C1. A decoded \<^verbatim>\<open>Swap\<close> event for a tracked pool whose record holds both tokens
  yields a new snapshot with the same keys in which only the addressed pool differs: the
  balance of the token-in is increased by the amount-in, the balance of the token-out is
  decreased by the amount-out, and every other token record, every other field of the
  pool and every other pool is as before.
\<close>

theorem processLog_Swap_balances:
  assumes wf: "wf_state h state"
    and dec: "vaultDecoder log = Inr \<lparr>name = ''Swap'', args = SwapArgs pid tIn tOut amountIn amountOut\<rparr>"
    and pool: "lookup_pool h state (toLowerCase (take 42 pid)) = Some pool"
    and tin: "tokens pool (toLowerCase tIn) \<noteq> None"
    and tout: "tokens pool (toLowerCase tOut) \<noteq> None"
  shows "\<exists>h' state'. processLog vaultDecoder h state log = (h', Some state')
     \<and> map fst state' = map fst state
     \<and> lookup_pool h' state' = (lookup_pool h state)(toLowerCase (take 42 pid) \<mapsto>
          pool\<lparr>tokens := \<lambda>t. map_option
            (\<lambda>ts. ts\<lparr>balance := balance ts + (if t = toLowerCase tIn then amountIn else 0)
                                         - (if t = toLowerCase tOut then amountOut else 0)\<rparr>)
            (tokens pool t)\<rparr>)"
proof -
  let ?ev = "\<lparr>name = ''Swap'', args = SwapArgs pid tIn tOut amountIn amountOut\<rparr>"
  let ?a = "toLowerCase (take 42 pid)"
  let ?h0 = "cloned_heap h state" and ?s = "cloned_state h state"
  let ?pool' = "pool\<lparr>tokens := \<lambda>t. map_option
            (\<lambda>ts. ts\<lparr>balance := balance ts + (if t = toLowerCase tIn then amountIn else 0)
                                         - (if t = toLowerCase tOut then amountOut else 0)\<rparr>)
            (tokens pool t)\<rparr>"
  obtain r where r: "map_of ?s ?a = Some r" "r < length ?h0" "?h0 ! r = pool"
    and run: "processLog vaultDecoder h state log =
         (case handleSwap ?ev ?h0 r of
            (h1, Inl e) \<Rightarrow> (h1, None)
          | (h1, Inr pool1) \<Rightarrow> (h1, Some (AList.update ?a pool1 ?s)))"
    using processLog_tracked [where vaultDecoder = vaultDecoder and log = log and handler = handleSwap, OF wf dec _ _ pool]
    by (auto simp: handlers_Swap)
  obtain x y where xy: "tokens (?h0 ! r) (toLowerCase tIn) = Some x" "tokens (?h0 ! r) (toLowerCase tOut) = Some y"
    using tin tout r(3) by auto
  have "handleSwap ?ev ?h0 r = (?h0[r := ?pool'], Inr r)"
    using handleSwap_ok [OF r(2) _ xy, of ?ev pid amountIn amountOut] r(3) by simp
  then have res: "processLog vaultDecoder h state log = (?h0[r := ?pool'], Some ?s)"
    using run r(1) by (simp add: update_triv)
  have "lookup_pool (?h0[r := ?pool']) ?s = (lookup_pool ?h0 ?s)(?a \<mapsto> ?pool')"
    using distinct_refs_cloned r(1,2) by (rule lookup_pool_update)
  then have "lookup_pool (?h0[r := ?pool']) ?s = (lookup_pool h state)(?a \<mapsto> ?pool')"
    by (simp add: lookup_pool_cloned)
  then show ?thesis
    using res keys_cloned_state [of h state] by blast
qed

theorem processLog_Swap_balances_witness:
  "wf_state ex_heap ex_state
   \<and> lookup_pool ex_heap ex_state (toLowerCase (take 42 ex_P1_id)) = Some ex_pool1
   \<and> tokens ex_pool1 (toLowerCase ex_A_sum) \<noteq> None
   \<and> tokens ex_pool1 (toLowerCase ex_B_sum) \<noteq> None
   \<and> (\<exists>h' state' p1. processLog (\<lambda>l. Inr ex_swap) ex_heap ex_state (0::nat) = (h', Some state')
        \<and> map fst state' = [ex_P1, ex_P2]
        \<and> lookup_pool h' state' ex_P1 = Some p1
        \<and> map_option balance (tokens p1 ex_A) = Some 1050
        \<and> map_option balance (tokens p1 ex_B) = Some 1905
        \<and> lookup_pool h' state' ex_P2 = Some ex_pool2)"
proof -
  have pool: "lookup_pool ex_heap ex_state (toLowerCase (take 42 ex_P1_id)) = Some ex_pool1"
    by (simp add: ex_lower ex_lookup)
  have tin: "tokens ex_pool1 (toLowerCase ex_A_sum) \<noteq> None"
    by (simp add: ex_lower ex_pool1_def)
  have tout: "tokens ex_pool1 (toLowerCase ex_B_sum) \<noteq> None"
    by (simp add: ex_lower ex_pool1_def)
  have dec: "(\<lambda>l::nat. Inr ex_swap :: error + event) 0 =
      Inr \<lparr>name = ''Swap'', args = SwapArgs ex_P1_id ex_A_sum ex_B_sum 50 95\<rparr>"
    by (simp add: ex_swap_def)
  obtain h' state' where run: "processLog (\<lambda>l. Inr ex_swap) ex_heap ex_state (0::nat) = (h', Some state')"
    and keys: "map fst state' = map fst ex_state"
    and lk: "lookup_pool h' state' = (lookup_pool ex_heap ex_state)(toLowerCase (take 42 ex_P1_id) \<mapsto>
          ex_pool1\<lparr>tokens := \<lambda>t. map_option
            (\<lambda>ts. ts\<lparr>balance := balance ts + (if t = toLowerCase ex_A_sum then 50 else 0)
                                         - (if t = toLowerCase ex_B_sum then 95 else 0)\<rparr>)
            (tokens ex_pool1 t)\<rparr>)"
    using processLog_Swap_balances [where vaultDecoder = "\<lambda>l. Inr ex_swap" and log = "0::nat", OF ex_wf dec pool tin tout]
    by blast
  have "map fst state' = [ex_P1, ex_P2]" using keys by (simp add: ex_state_def)
  moreover have "lookup_pool h' state' ex_P2 = Some ex_pool2"
    unfolding lk using ex_distinct by (simp add: ex_lower ex_lookup)
  moreover obtain p1 where "lookup_pool h' state' ex_P1 = Some p1"
      "map_option balance (tokens p1 ex_A) = Some 1050"
      "map_option balance (tokens p1 ex_B) = Some 1905"
    unfolding lk using ex_distinct by (simp add: ex_lower ex_pool1_def)
  ultimately have "\<exists>h' state' p1. processLog (\<lambda>l. Inr ex_swap) ex_heap ex_state (0::nat) = (h', Some state')
        \<and> map fst state' = [ex_P1, ex_P2]
        \<and> lookup_pool h' state' ex_P1 = Some p1
        \<and> map_option balance (tokens p1 ex_A) = Some 1050
        \<and> map_option balance (tokens p1 ex_B) = Some 1905
        \<and> lookup_pool h' state' ex_P2 = Some ex_pool2"
    using run by (intro exI [of _ h'] exI [of _ state'] exI [of _ p1]) simp
  then show ?thesis
    using ex_wf pool tin tout by simp
qed

text \<open>
  Claim C2. A decoded \<^verbatim>\<open>PoolBalanceChanged\<close> event for a tracked pool whose record holds
  every listed token yields one new snapshot in which the balance of each token has
  changed by the sum, over the positions where the event lists it, of delta minus protocol
  fee amount; a token listed once changes by exactly its delta minus its fee, a token not
  listed does not change, and no other pool changes.
\<close>

theorem processLog_PoolBalanceChanged_balances:
  assumes wf: "wf_state h state"
    and dec: "vaultDecoder log =
       Inr \<lparr>name = ''PoolBalanceChanged'', args = PoolBalanceChangedArgs pid lp toks deltas fees\<rparr>"
    and pool: "lookup_pool h state (toLowerCase (take 42 pid)) = Some pool"
    and listed: "\<forall>t \<in> set toks. tokens pool (toLowerCase t) \<noteq> None"
    and len: "length toks \<le> length deltas" "length toks \<le> length fees"
  shows "\<exists>h' state'. processLog vaultDecoder h state log = (h', Some state')
     \<and> map fst state' = map fst state
     \<and> lookup_pool h' state' = (lookup_pool h state)(toLowerCase (take 42 pid) \<mapsto>
          pool\<lparr>tokens := \<lambda>t. map_option
            (\<lambda>ts. ts\<lparr>balance := balance ts +
               (\<Sum>j\<leftarrow>[0..<length toks]. if toLowerCase (toks ! j) = t then deltas ! j - fees ! j else 0)\<rparr>)
            (tokens pool t)\<rparr>)"
proof -
  let ?ev = "\<lparr>name = ''PoolBalanceChanged'', args = PoolBalanceChangedArgs pid lp toks deltas fees\<rparr>"
  let ?a = "toLowerCase (take 42 pid)"
  let ?h0 = "cloned_heap h state" and ?s = "cloned_state h state"
  let ?pool' = "pool\<lparr>tokens := \<lambda>u. map_option
          (\<lambda>x. x\<lparr>balance := balance x + net_change u (map toLowerCase toks) deltas fees 0\<rparr>) (tokens pool u)\<rparr>"
  obtain r where r: "map_of ?s ?a = Some r" "r < length ?h0" "?h0 ! r = pool"
    and run: "processLog vaultDecoder h state log =
         (case handlePoolBalanceChanged ?ev ?h0 r of
            (h1, Inl e) \<Rightarrow> (h1, None)
          | (h1, Inr pool1) \<Rightarrow> (h1, Some (AList.update ?a pool1 ?s)))"
    using processLog_tracked [where vaultDecoder = vaultDecoder and log = log and handler = handlePoolBalanceChanged, OF wf dec _ _ pool]
    by (auto simp: handlers_PoolBalanceChanged)
  have "handlePoolBalanceChanged ?ev ?h0 r = (?h0[r := ?pool'], Inr r)"
    using handlePoolBalanceChanged_ok [OF r(2), of ?ev pid lp toks deltas fees] listed len r(3) by simp
  then have res: "processLog vaultDecoder h state log = (?h0[r := ?pool'], Some ?s)"
    using run r(1) by (simp add: update_triv)
  have "lookup_pool (?h0[r := ?pool']) ?s = (lookup_pool ?h0 ?s)(?a \<mapsto> ?pool')"
    using distinct_refs_cloned r(1,2) by (rule lookup_pool_update)
  then have lk: "lookup_pool (?h0[r := ?pool']) ?s = (lookup_pool h state)(?a \<mapsto> ?pool')"
    by (simp add: lookup_pool_cloned)
  have "net_change u (map toLowerCase toks) deltas fees 0 =
      (\<Sum>j\<leftarrow>[0..<length toks]. if toLowerCase (toks ! j) = u then deltas ! j - fees ! j else 0)" for u
    unfolding net_change_sum by (rule arg_cong [where f = sum_list]) (simp cong: map_cong)
  then show ?thesis
    using res lk keys_cloned_state [of h state] by auto
qed

theorem processLog_PoolBalanceChanged_balances_witness:
  "wf_state ex_heap ex_state
   \<and> lookup_pool ex_heap ex_state (toLowerCase (take 42 ex_P1_id)) = Some ex_pool1
   \<and> tokens ex_pool1 (toLowerCase ex_A_sum) \<noteq> None
   \<and> tokens ex_pool1 (toLowerCase ex_B_sum) \<noteq> None
   \<and> length [ex_A_sum, ex_B_sum] \<le> length [100, - 50 :: int]
   \<and> length [ex_A_sum, ex_B_sum] \<le> length [1, 0 :: int]
   \<and> (\<exists>h' state' p1. processLog (\<lambda>l. Inr ex_change) ex_heap ex_state (0::nat) = (h', Some state')
        \<and> map fst state' = [ex_P1, ex_P2]
        \<and> lookup_pool h' state' ex_P1 = Some p1
        \<and> map_option balance (tokens p1 ex_A) = Some 1099
        \<and> map_option balance (tokens p1 ex_B) = Some 1950
        \<and> lookup_pool h' state' ex_P2 = Some ex_pool2)"
proof -
  have pool: "lookup_pool ex_heap ex_state (toLowerCase (take 42 ex_P1_id)) = Some ex_pool1"
    by (simp add: ex_lower ex_lookup)
  have listed: "\<forall>t \<in> set [ex_A_sum, ex_B_sum]. tokens ex_pool1 (toLowerCase t) \<noteq> None"
    by (simp add: ex_lower ex_pool1_def)
  have len: "length [ex_A_sum, ex_B_sum] \<le> length [100, - 50 :: int]"
    "length [ex_A_sum, ex_B_sum] \<le> length [1, 0 :: int]"
    by simp_all
  have dec: "(\<lambda>l::nat. Inr ex_change :: error + event) 0 =
      Inr \<lparr>name = ''PoolBalanceChanged'',
        args = PoolBalanceChangedArgs ex_P1_id ex_C_sum [ex_A_sum, ex_B_sum] [100, - 50] [1, 0]\<rparr>"
    by (simp add: ex_change_def)
  obtain h' state' where run: "processLog (\<lambda>l. Inr ex_change) ex_heap ex_state (0::nat) = (h', Some state')"
    and keys: "map fst state' = map fst ex_state"
    and lk: "lookup_pool h' state' = (lookup_pool ex_heap ex_state)(toLowerCase (take 42 ex_P1_id) \<mapsto>
          ex_pool1\<lparr>tokens := \<lambda>t. map_option
            (\<lambda>ts. ts\<lparr>balance := balance ts +
               (\<Sum>j\<leftarrow>[0..<length [ex_A_sum, ex_B_sum]].
                  if toLowerCase ([ex_A_sum, ex_B_sum] ! j) = t then [100, - 50] ! j - [1, 0] ! j else 0)\<rparr>)
            (tokens ex_pool1 t)\<rparr>)"
    using processLog_PoolBalanceChanged_balances [where vaultDecoder = "\<lambda>l. Inr ex_change" and log = "0::nat",
        OF ex_wf dec pool listed len]
    by blast
  have upt2: "[0..<length [ex_A_sum, ex_B_sum]] = [0, 1]"
    by (simp add: upt_rec)
  have "map fst state' = [ex_P1, ex_P2]" using keys by (simp add: ex_state_def)
  moreover have "lookup_pool h' state' ex_P2 = Some ex_pool2"
    unfolding lk using ex_distinct by (simp add: ex_lower ex_lookup)
  moreover obtain p1 where "lookup_pool h' state' ex_P1 = Some p1"
      "map_option balance (tokens p1 ex_A) = Some 1099"
      "map_option balance (tokens p1 ex_B) = Some 1950"
    unfolding lk upt2 using ex_distinct by (simp add: ex_lower ex_pool1_def)
  ultimately have "\<exists>h' state' p1. processLog (\<lambda>l. Inr ex_change) ex_heap ex_state (0::nat) = (h', Some state')
        \<and> map fst state' = [ex_P1, ex_P2]
        \<and> lookup_pool h' state' ex_P1 = Some p1
        \<and> map_option balance (tokens p1 ex_A) = Some 1099
        \<and> map_option balance (tokens p1 ex_B) = Some 1950
        \<and> lookup_pool h' state' ex_P2 = Some ex_pool2"
    using run by (intro exI [of _ h'] exI [of _ state'] exI [of _ p1]) simp
  then show ?thesis
    using ex_wf pool listed len by simp
qed

text \<open>
  Claim C5. For a decoded event whose name is neither \<^verbatim>\<open>Swap\<close> nor
  \<^verbatim>\<open>PoolBalanceChanged\<close>, or whose pool address is not a key of the snapshot,
  \<^verbatim>\<open>processLog\<close> returns a snapshot (not \<^verbatim>\<open>null\<close>) that equals the input snapshot in
  value.
\<close>

theorem processLog_unrecognized_noop:
  assumes wf: "wf_state h state" and dec: "vaultDecoder log = Inr ev"
    and no: "(name ev \<noteq> ''Swap'' \<and> name ev \<noteq> ''PoolBalanceChanged'') \<or>
       (\<exists>pid. args_poolId (args ev) = Some pid \<and> toLowerCase (take 42 pid) \<notin> fst ` set state)"
  shows "\<exists>h' state'. processLog vaultDecoder h state log = (h', Some state')
     \<and> snapshot h' state' = snapshot h state"
proof -
  have "(name ev \<noteq> ''Swap'' \<and> name ev \<noteq> ''PoolBalanceChanged'') \<or>
       (\<exists>pid. args_poolId (args ev) = Some pid \<and> map_of state (toLowerCase (take 42 pid)) = None)"
    using no by (auto simp: map_of_eq_None_iff)
  then have "processLog vaultDecoder h state log = (cloned_heap h state, Some (cloned_state h state))"
    using wf dec by (intro processLog_untracked)
  then show ?thesis by (simp add: snapshot_cloned)
qed

theorem processLog_unrecognized_noop_witness:
  "wf_state ex_heap ex_state
   \<and> args_poolId (args ex_swap_untracked) = Some ex_P3_id
   \<and> toLowerCase (take 42 ex_P3_id) \<notin> fst ` set ex_state
   \<and> (\<exists>h' state'. processLog (\<lambda>l. Inr ex_swap_untracked) ex_heap ex_state (0::nat) = (h', Some state')
        \<and> snapshot h' state' = [(ex_P1, ex_pool1), (ex_P2, ex_pool2)])"
proof -
  have pid: "args_poolId (args ex_swap_untracked) = Some ex_P3_id"
    by (simp add: ex_swap_untracked_def)
  have untracked: "toLowerCase (take 42 ex_P3_id) \<notin> fst ` set ex_state"
    using ex_distinct by (simp add: ex_lower ex_state_def)
  have dec: "(\<lambda>l::nat. Inr ex_swap_untracked :: error + event) 0 = Inr ex_swap_untracked"
    by simp
  have "\<exists>h' state'. processLog (\<lambda>l. Inr ex_swap_untracked) ex_heap ex_state (0::nat) = (h', Some state')
     \<and> snapshot h' state' = snapshot ex_heap ex_state"
    using processLog_unrecognized_noop [where vaultDecoder = "\<lambda>l. Inr ex_swap_untracked" and log = "0::nat",
        OF ex_wf dec] pid untracked
    by blast
  moreover have "snapshot ex_heap ex_state = [(ex_P1, ex_pool1), (ex_P2, ex_pool2)]"
    by (simp add: snapshot_def ex_heap_def ex_state_def)
  ultimately show ?thesis
    using ex_wf pid untracked by simp
qed

text \<open>
  Claim C4. When the log cannot be decoded, or the decoded event of a handled name lacks
  the pool id, or its handler throws on the tracked pool (a token absent from the pool's
  record, or a delta or fee missing for a listed token), \<^verbatim>\<open>processLog\<close> returns
  \<^verbatim>\<open>null\<close>, every object that existed before the call is unchanged, and so the input
  snapshot denotes the same values as before.
\<close>

theorem processLog_null_on_throw:
  assumes wf: "wf_state h state"
    and throws: "(\<exists>e. vaultDecoder log = Inl e) \<or>
      (\<exists>ev. vaultDecoder log = Inr ev \<and> name ev \<in> {''Swap'', ''PoolBalanceChanged''}
          \<and> args_poolId (args ev) = None) \<or>
      (\<exists>ev pid pool. vaultDecoder log = Inr ev \<and> args_poolId (args ev) = Some pid
          \<and> lookup_pool h state (toLowerCase (take 42 pid)) = Some pool
          \<and> ((name ev = ''Swap'' \<and> (\<exists>p tIn tOut aIn aOut. args ev = SwapArgs p tIn tOut aIn aOut
                 \<and> (tokens pool (toLowerCase tIn) = None \<or> tokens pool (toLowerCase tOut) = None)))
             \<or> (name ev = ''PoolBalanceChanged'' \<and> (\<exists>p lp toks ds fs. args ev = PoolBalanceChangedArgs p lp toks ds fs
                 \<and> (\<exists>k < length toks. tokens pool (toLowerCase (toks ! k)) = None
                       \<or> length ds \<le> k \<or> length fs \<le> k)))))"
  shows "snd (processLog vaultDecoder h state log) = None
     \<and> take (length h) (fst (processLog vaultDecoder h state log)) = h
     \<and> snapshot (fst (processLog vaultDecoder h state log)) state = snapshot h state"
proof -
  have frame: "take (length h) (fst (processLog vaultDecoder h state log)) = h"
    using wf by (rule processLog_frame)
  consider
      (decode) e where "vaultDecoder log = Inl e"
    | (fields) ev where "vaultDecoder log = Inr ev" "name ev \<in> {''Swap'', ''PoolBalanceChanged''}"
        "args_poolId (args ev) = None"
    | (swap) ev pid pool p tIn tOut aIn aOut where
        "vaultDecoder log = Inr ev" "args_poolId (args ev) = Some pid"
        "lookup_pool h state (toLowerCase (take 42 pid)) = Some pool"
        "name ev = ''Swap''" "args ev = SwapArgs p tIn tOut aIn aOut"
        "tokens pool (toLowerCase tIn) = None \<or> tokens pool (toLowerCase tOut) = None"
    | (changed) ev pid pool p lp toks ds fs k where
        "vaultDecoder log = Inr ev" "args_poolId (args ev) = Some pid"
        "lookup_pool h state (toLowerCase (take 42 pid)) = Some pool"
        "name ev = ''PoolBalanceChanged''" "args ev = PoolBalanceChangedArgs p lp toks ds fs"
        "k < length toks"
        "tokens pool (toLowerCase (toks ! k)) = None \<or> length ds \<le> k \<or> length fs \<le> k"
    using throws by blast
  then have null: "snd (processLog vaultDecoder h state log) = None"
  proof cases
    case decode
    then show ?thesis by (simp add: processLog_def split: prod.splits)
  next
    case fields
    then show ?thesis
      by (auto simp: processLog_def handlers_def split: prod.splits)
  next
    case swap
    note dec = swap(1) and pid = swap(2) and pool = swap(3) and n = swap(4) and a = swap(5) and miss = swap(6)
    obtain r where r: "r < length (cloned_heap h state)" "cloned_heap h state ! r = pool"
      and run: "processLog vaultDecoder h state log =
         (case handleSwap ev (cloned_heap h state) r of
            (h1, Inl e) \<Rightarrow> (h1, None)
          | (h1, Inr pool1) \<Rightarrow> (h1, Some (AList.update (toLowerCase (take 42 pid)) pool1 (cloned_state h state))))"
      using processLog_tracked [where vaultDecoder = vaultDecoder and log = log and handler = handleSwap, OF wf dec _ pid pool] n
      by (auto simp: handlers_Swap)
    obtain e where "snd (handleSwap ev (cloned_heap h state) r) = Inl e"
      using handleSwap_throws [OF r(1) a] miss r(2) by auto
    then show ?thesis using run by (auto split: prod.splits)
  next
    case changed
    note dec = changed(1) and pid = changed(2) and pool = changed(3) and n = changed(4)
      and a = changed(5) and k = changed(6) and miss = changed(7)
    obtain r where r: "r < length (cloned_heap h state)" "cloned_heap h state ! r = pool"
      and run: "processLog vaultDecoder h state log =
         (case handlePoolBalanceChanged ev (cloned_heap h state) r of
            (h1, Inl e) \<Rightarrow> (h1, None)
          | (h1, Inr pool1) \<Rightarrow> (h1, Some (AList.update (toLowerCase (take 42 pid)) pool1 (cloned_state h state))))"
      using processLog_tracked [where vaultDecoder = vaultDecoder and log = log and handler = handlePoolBalanceChanged, OF wf dec _ pid pool] n
      by (auto simp: handlers_PoolBalanceChanged)
    obtain e where "snd (handlePoolBalanceChanged ev (cloned_heap h state) r) = Inl e"
      using handlePoolBalanceChanged_throws [OF r(1) a] k miss r(2) by blast
    then show ?thesis using run by (auto split: prod.splits)
  qed
  show ?thesis
    using null frame snapshot_frame [OF wf frame] by simp
qed

theorem processLog_null_on_throw_witness:
  "wf_state ex_heap ex_state
   \<and> args_poolId (args ex_swap_absent) = Some ex_P1_id
   \<and> lookup_pool ex_heap ex_state (toLowerCase (take 42 ex_P1_id)) = Some ex_pool1
   \<and> name ex_swap_absent = ''Swap''
   \<and> args ex_swap_absent = SwapArgs ex_P1_id ex_A_sum ex_C_sum 50 95
   \<and> tokens ex_pool1 (toLowerCase ex_C_sum) = None
   \<and> snd (processLog (\<lambda>l. Inr ex_swap_absent) ex_heap ex_state (0::nat)) = None
   \<and> take (length ex_heap) (fst (processLog (\<lambda>l. Inr ex_swap_absent) ex_heap ex_state (0::nat))) = ex_heap
   \<and> snapshot (fst (processLog (\<lambda>l. Inr ex_swap_absent) ex_heap ex_state (0::nat))) ex_state
       = [(ex_P1, ex_pool1), (ex_P2, ex_pool2)]"
proof -
  have pid: "args_poolId (args ex_swap_absent) = Some ex_P1_id"
    and nm: "name ex_swap_absent = ''Swap''"
    and ar: "args ex_swap_absent = SwapArgs ex_P1_id ex_A_sum ex_C_sum 50 95"
    by (simp_all add: ex_swap_absent_def)
  have pool: "lookup_pool ex_heap ex_state (toLowerCase (take 42 ex_P1_id)) = Some ex_pool1"
    by (simp add: ex_lower ex_lookup)
  have absent: "tokens ex_pool1 (toLowerCase ex_C_sum) = None"
    using ex_distinct by (simp add: ex_lower ex_pool1_def)
  have throws: "(\<exists>e. (\<lambda>l::nat. Inr ex_swap_absent :: error + event) 0 = Inl e) \<or>
      (\<exists>ev. (\<lambda>l::nat. Inr ex_swap_absent :: error + event) 0 = Inr ev \<and> name ev \<in> {''Swap'', ''PoolBalanceChanged''}
          \<and> args_poolId (args ev) = None) \<or>
      (\<exists>ev pid pool. (\<lambda>l::nat. Inr ex_swap_absent :: error + event) 0 = Inr ev \<and> args_poolId (args ev) = Some pid
          \<and> lookup_pool ex_heap ex_state (toLowerCase (take 42 pid)) = Some pool
          \<and> ((name ev = ''Swap'' \<and> (\<exists>p tIn tOut aIn aOut. args ev = SwapArgs p tIn tOut aIn aOut
                 \<and> (tokens pool (toLowerCase tIn) = None \<or> tokens pool (toLowerCase tOut) = None)))
             \<or> (name ev = ''PoolBalanceChanged'' \<and> (\<exists>p lp toks ds fs. args ev = PoolBalanceChangedArgs p lp toks ds fs
                 \<and> (\<exists>k < length toks. tokens pool (toLowerCase (toks ! k)) = None
                       \<or> length ds \<le> k \<or> length fs \<le> k)))))"
    using pid nm ar pool absent by blast
  have "snapshot ex_heap ex_state = [(ex_P1, ex_pool1), (ex_P2, ex_pool2)]"
    by (simp add: snapshot_def ex_heap_def ex_state_def)
  then show ?thesis
    using processLog_null_on_throw [where vaultDecoder = "\<lambda>l. Inr ex_swap_absent" and log = "0::nat",
        OF ex_wf throws] ex_wf pid nm ar pool absent
    by simp
qed

subsection \<open>The non-event cache\<close>

lemma cache_step_invariant:
  fixes height :: "'s \<Rightarrow> nat"
  assumes inv: "\<forall>st \<in> ran (poolState cache). height st = blockNumber cache"
    and call: "case c of Get bn \<Rightarrow> True | Update ps bn \<Rightarrow> \<forall>st \<in> ran ps. height st = bn"
  shows "\<forall>st \<in> ran (poolState (cache_step cache c)). height st = blockNumber (cache_step cache c)"
proof (cases c)
  case (Get bn)
  then show ?thesis using inv by (simp add: getNonEventPoolStateCache_def Let_def)
next
  case (Update ps bn)
  then have ps: "\<forall>st \<in> ran ps. height st = bn" using call by simp
  show ?thesis
  proof (cases "blockNumber cache = bn")
    case True
    have "ran (poolState cache ++ ps) \<subseteq> ran (poolState cache) \<union> ran ps"
      by (auto simp: ran_def map_add_Some_iff)
    then show ?thesis using Update True inv ps
      by (auto simp: updateNonEventPoolStateCache_def Let_def)
  next
    case False
    then show ?thesis using Update ps
      by (simp add: updateNonEventPoolStateCache_def Let_def)
  qed
qed

lemma cache_run_invariant:
  fixes height :: "'s \<Rightarrow> nat"
  assumes "\<forall>st \<in> ran (poolState cache). height st = blockNumber cache"
    and "\<forall>c \<in> set calls. case c of Get bn \<Rightarrow> True | Update ps bn \<Rightarrow> \<forall>st \<in> ran ps. height st = bn"
  shows "\<forall>st \<in> ran (poolState (cache_run cache calls)). height st = blockNumber (cache_run cache calls)"
  using assms unfolding cache_run_def
proof (induction calls arbitrary: cache)
  case Nil
  then show ?case by simp
next
  case (Cons c calls)
  have "\<forall>st \<in> ran (poolState (cache_step cache c)). height st = blockNumber (cache_step cache c)"
    using Cons.prems by (intro cache_step_invariant) auto
  then show ?case using Cons.IH [of "cache_step cache c"] Cons.prems(2) by simp
qed

subsection \<open>Pricing, the allow-list and the state view\<close>

lemma spokes_listed_iff:
  "spokes_listed key limitPools ts \<longleftrightarrow>
     (\<forall>t \<in> set ts. key @ ''_'' @ toLowerCase (MainToken.linearPoolAddr t) \<in> set limitPools)"
  by (induction ts) auto

lemma pool_allowed_iff:
  "pool_allowed dex limitPools pool \<longleftrightarrow>
     dexKey dex @ ''_'' @ toLowerCase (SubgraphPoolBase.address pool) \<in> set limitPools
     \<and> (\<forall>vb. virtualBoostedPools (eventPools dex) (split_first (id' pool) (toLowerCase (poolType pool))) = Some vb \<longrightarrow>
          dexKey dex @ ''_'' @ toLowerCase (SubgraphPoolBase.address pool) @ ''virtualboosted'' \<in> set limitPools
          \<and> (\<forall>t \<in> set (mainTokens vb).
                dexKey dex @ ''_'' @ toLowerCase (MainToken.linearPoolAddr t) \<in> set limitPools))"
  by (auto simp: pool_allowed_def Let_def spokes_listed_iff split: option.splits)

lemma price_pool_Some:
  assumes "price_pool dex from' to' amounts unitVolume side ev ne complete pool = Some q"
  shows "poolId (data q) = id' pool
     \<and> poolIdentifier q = dexKey dex @ ''_'' @ id' pool
     \<and> hd (poolAddresses q) = toLowerCase (SubgraphPoolBase.address pool)
     \<and> (ev (toLowerCase (SubgraphPoolBase.address pool)) \<noteq> None
          \<or> ne (toLowerCase (SubgraphPoolBase.address pool)) \<noteq> None)"
  using assms
  by (auto simp: price_pool_def Let_def split: option.splits sum.splits)

lemma map_filter_mem:
  "q \<in> set (List.map_filter f xs) \<Longrightarrow> \<exists>x \<in> set xs. f x = Some q"
  by (auto simp: List.map_filter_def)

text \<open>The shape of every result of \<^verbatim>\<open>getPricesVolume\<close> that is not \<^verbatim>\<open>null\<close>.\<close>

lemma getPricesVolume_Some:
  assumes "getPricesVolume dex from to amounts side bn limitPools = (cache', Some quotes)"
  shows "\<exists>ro ne.
      getState (eventPools dex) bn = Inr ro
    \<and> side \<noteq> BUY
    \<and> ne = poolState cache'
    \<and> quotes = List.map_filter
        (price_pool dex (wrapETH dex from) (wrapETH dex to) amounts
           (getBigIntPow (Token.decimals (if side = SELL then wrapETH dex from else wrapETH dex to))) side
           (delete_disabled (eventDisabledPools dex) (case ro of None \<Rightarrow> Map.empty | Some m \<Rightarrow> m))
           ne ((case ro of None \<Rightarrow> Map.empty | Some m \<Rightarrow> m) ++ ne))
        (allowedPools dex limitPools (getPools dex (wrapETH dex from) (wrapETH dex to)))"
  using assms
  by (auto simp: getPricesVolume_def Let_def getNonEventPoolStateCache_def updateNonEventPoolStateCache_def
      split: if_splits sum.splits prod.splits option.splits)

lemma getPricesVolume_Some_height:
  assumes "getPricesVolume dex from to amounts side bn limitPools = (cache', Some quotes)"
    and "poolState cache' a \<noteq> None"
  shows "blockNumber cache' = bn"
  using assms
  by (auto simp: getPricesVolume_def Let_def getNonEventPoolStateCache_def updateNonEventPoolStateCache_def
      split: if_splits sum.splits prod.splits option.splits)

lemma getPricesVolume_fetch:
  assumes side: "side \<noteq> BUY"
    and allowed: "allowedPools dex limitPools (getPools dex (wrapETH dex from) (wrapETH dex to)) = allowed"
      "allowed \<noteq> []"
    and st: "getState (eventPools dex) bn = Inr eventPoolStatesRO"
    and ro: "ro = (case eventPoolStatesRO of None \<Rightarrow> Map.empty | Some m \<Rightarrow> m)"
    and ev: "ev = delete_disabled (eventDisabledPools dex) ro"
    and c1: "getNonEventPoolStateCache (nonEventPoolStateCache dex) bn = (cache1, ne1)"
    and missing: "missingPools ev ne1 allowed = missing" "missing \<noteq> []"
  shows "getPricesVolume dex from to amounts side bn limitPools =
     (case getOnChainState (eventPools dex) missing bn of
        Inl e \<Rightarrow> (cache1, None)
      | Inr fetched \<Rightarrow>
          (fst (updateNonEventPoolStateCache cache1 fetched bn),
           Some (List.map_filter
             (price_pool dex (wrapETH dex from) (wrapETH dex to) amounts
                (getBigIntPow (Token.decimals (if side = SELL then wrapETH dex from else wrapETH dex to))) side
                ev (snd (updateNonEventPoolStateCache cache1 fetched bn))
                (ro ++ snd (updateNonEventPoolStateCache cache1 fetched bn)))
             allowed)))"
  unfolding getPricesVolume_def Let_def
  using side allowed(2) missing(2)
  by (simp add: allowed(1) st ro [symmetric] ev [symmetric] c1 missing(1) split: sum.splits prod.splits)

lemma getPricesVolume_cached:
  assumes side: "side \<noteq> BUY"
    and allowed: "allowedPools dex limitPools (getPools dex (wrapETH dex from) (wrapETH dex to)) = allowed"
      "allowed \<noteq> []"
    and st: "getState (eventPools dex) bn = Inr eventPoolStatesRO"
    and ro: "ro = (case eventPoolStatesRO of None \<Rightarrow> Map.empty | Some m \<Rightarrow> m)"
    and ev: "ev = delete_disabled (eventDisabledPools dex) ro"
    and c1: "getNonEventPoolStateCache (nonEventPoolStateCache dex) bn = (cache1, ne1)"
    and missing: "missingPools ev ne1 allowed = []"
  shows "getPricesVolume dex from to amounts side bn limitPools =
     (cache1,
      Some (List.map_filter
             (price_pool dex (wrapETH dex from) (wrapETH dex to) amounts
                (getBigIntPow (Token.decimals (if side = SELL then wrapETH dex from else wrapETH dex to))) side
                ev ne1 (ro ++ ne1))
             allowed))"
  unfolding getPricesVolume_def Let_def
  using side allowed(2)
  by (simp add: allowed(1) st ro [symmetric] ev [symmetric] c1 missing)

lemma delete_disabled_apply:
  "delete_disabled disabled m a = (if a \<in> set disabled then None else m a)"
  unfolding delete_disabled_def by (induction disabled arbitrary: m) auto

lemma delete_disabled_None: "a \<in> set disabled \<Longrightarrow> delete_disabled disabled m a = None"
  by (simp add: delete_disabled_apply)

lemma delete_disabled_empty: "delete_disabled disabled Map.empty = Map.empty"
  by (rule ext) (simp add: delete_disabled_apply)

subsection \<open>The example request, evaluated\<close>

lemma ex_lower2:
  "toLowerCase ex_A = ex_A" "toLowerCase ex_B = ex_B"
  "toLowerCase ex_P1 = ex_P1" "toLowerCase ex_P2 = ex_P2"
  "toLowerCase ''Weighted'' = ''weighted''" "toLowerCase ''Stable'' = ''stable''"
  by code_simp+

lemma ex_sub_fields:
  "id' ex_sub1 = ex_P1_id" "SubgraphPoolBase.address ex_sub1 = ex_P1" "poolType ex_sub1 = ''Weighted''"
  "SubgraphPoolBase.tokens ex_sub1 = ex_sub_tokens"
  "id' ex_sub2 = ex_P2_id" "SubgraphPoolBase.address ex_sub2 = ex_P2" "poolType ex_sub2 = ''Stable''"
  "SubgraphPoolBase.tokens ex_sub2 = ex_sub_tokens"
  by (simp_all add: ex_sub1_def ex_sub2_def)

lemma ex_token_fields:
  "Token.address ex_from = ex_A_sum" "Token.decimals ex_from = 0"
  "Token.address ex_to = ex_B_sum" "Token.decimals ex_to = 0"
  by (simp_all add: ex_from_def ex_to_def)

lemma ex_strategy_fields:
  "parsePoolPairData ex_strategy pool states tokenIn tokenOut vbp =
     (case states (toLowerCase (SubgraphPoolBase.address pool)) of
            None \<Rightarrow> Inl TypeError
          | Some st \<Rightarrow>
              (case (tokens st (toLowerCase tokenIn), tokens st (toLowerCase tokenOut)) of
                 (Some i, Some out) \<Rightarrow> Inr (balance i, balance out)
               | _ \<Rightarrow> Inl TypeError))"
  "checkBalance ex_strategy amounts unitVolume side (bi, bo) = Inr (list_all (\<lambda>a. a \<le> bi) amounts)"
  "onSell ex_strategy amounts (bi, bo) = Inr (map (\<lambda>a. (bo * a) div (bi + a)) amounts)"
  "pairGasCost ex_strategy d = 150000"
  "getOnChainCalls ex_strategy pool vbp = [toLowerCase (SubgraphPoolBase.address pool)]"
  "decodeOnChainCalls ex_strategy pool ret i vbp =
     (if i < length ret then Inr ([toLowerCase (SubgraphPoolBase.address pool) \<mapsto> ret ! i], Suc i)
      else Inl TypeError)"
  by (simp_all add: ex_strategy_def)

lemma ex_eventPools_fields:
  "allPools ex_eventPools = [ex_sub1, ex_sub2]"
  "virtualBoostedPools ex_eventPools = Map.empty"
  "getState ex_eventPools bn = Inr (Some [ex_P1 \<mapsto> ex_pool1, ex_P2 \<mapsto> ex_pool2])"
  "tryAggregate ex_eventPools calls bn = Inr (map ex_chain calls)"
  "pools ex_eventPools ''Weighted'' = Some ex_strategy"
  "pools ex_eventPools ''Stable'' = Some ex_strategy"
  by (simp_all add: ex_eventPools_def pools_registry_def)

lemma ex_dex_fields:
  "dexKey ex_dex = ''BalancerV2''"
  "eventPools ex_dex = ex_eventPools"
  "eventDisabledPools ex_dex = [ex_P1]"
  "nonEventPoolStateCache ex_dex = \<lparr>blockNumber = 0, poolState = Map.empty\<rparr>"
  "wrapETH ex_dex t = t"
  by (simp_all add: ex_dex_def)

lemma ex_getPools: "getPools ex_dex ex_from ex_to = [ex_sub1, ex_sub2]"
  by (simp add: getPools_def ex_dex_fields ex_eventPools_fields ex_sub_fields ex_sub_tokens_def
      ex_token_fields ex_lower ex_lower2)

lemma ex_supported: "isSupportedPool ''Weighted''" "isSupportedPool ''Stable''"
  by (simp_all add: isSupportedPool_def BalancerPoolTypes_def)

lemma ex_chunk: "chunk 500 [x] = [[x]]"
  by (simp add: chunk.simps [of 500 "[x]"] chunk.simps [of 500 "[]"])

lemma ex_chunk2: "chunk 500 [x, y] = [[x, y]]"
  by (simp add: chunk.simps [of 500 "[x, y]"] chunk.simps [of 500 "[]"])

lemma ex_fetch1: "getOnChainState ex_eventPools [ex_sub1] 100 = Inr [ex_P1 \<mapsto> ex_chain ex_P1]"
  by (simp add: getOnChainState_def ex_supported ex_sub_fields ex_chunk ex_lower2
      ex_strategy_fields ex_eventPools_fields)

lemma ex_fetch2: "getOnChainState ex_eventPools [ex_sub1, ex_sub2] 100 =
    Inr [ex_P1 \<mapsto> ex_chain ex_P1, ex_P2 \<mapsto> ex_chain ex_P2]"
  by (simp add: getOnChainState_def ex_supported ex_sub_fields ex_chunk2 ex_lower2
      ex_strategy_fields ex_eventPools_fields)

lemma ex_chain_tokens:
  "tokens (ex_chain ex_P1) ex_A = Some \<lparr>balance = 1200\<rparr>"
  "tokens (ex_chain ex_P1) ex_B = Some \<lparr>balance = 1800\<rparr>"
  "tokens (ex_chain ex_P2) ex_A = Some \<lparr>balance = 5000\<rparr>"
  "tokens (ex_chain ex_P2) ex_B = Some \<lparr>balance = 5000\<rparr>"
  "tokens ex_pool1 ex_A = Some \<lparr>balance = 1000\<rparr>"
  "tokens ex_pool1 ex_B = Some \<lparr>balance = 2000\<rparr>"
  "tokens ex_pool2 ex_A = Some \<lparr>balance = 5000\<rparr>"
  "tokens ex_pool2 ex_B = Some \<lparr>balance = 5000\<rparr>"
  using ex_distinct by (simp_all add: ex_chain_def ex_pool1_def ex_pool2_def)

lemma ex_price1:
  "states ex_P1 = Some (ex_chain ex_P1) \<Longrightarrow>
   getPricesPool ex_eventPools ex_from ex_to ex_sub1 states [1, 100, 500] 1 SELL =
     Inr (Some \<lparr>unit = Some 1, prices = [0, 138, 529], gasCost = 150000\<rparr>)"
  by (simp add: getPricesPool_def ex_supported ex_sub_fields ex_eventPools_fields ex_strategy_fields
      ex_token_fields ex_lower ex_lower2 ex_chain_tokens)

lemma ex_price2:
  "states ex_P2 = Some ex_pool2 \<Longrightarrow>
   getPricesPool ex_eventPools ex_from ex_to ex_sub2 states [1, 100, 500] 1 SELL =
     Inr (Some \<lparr>unit = Some 0, prices = [0, 98, 454], gasCost = 150000\<rparr>)"
  by (simp add: getPricesPool_def ex_supported ex_sub_fields ex_eventPools_fields ex_strategy_fields
      ex_token_fields ex_lower ex_lower2 ex_chain_tokens)

lemma ex_price_pool1:
  "ne ex_P1 = Some (ex_chain ex_P1) \<Longrightarrow> ev ex_P1 = None \<Longrightarrow> complete ex_P1 = Some (ex_chain ex_P1) \<Longrightarrow>
   price_pool ex_dex ex_from ex_to [1, 100, 500] 1 SELL ev ne complete ex_sub1 = Some ex_quote1"
  by (simp add: price_pool_def Let_def ex_sub_fields ex_lower2 ex_price1 ex_dex_fields
      ex_eventPools_fields ex_quote1_def)

lemma ex_price_pool2:
  "ev ex_P2 = Some ex_pool2 \<or> (ev ex_P2 = None \<and> ne ex_P2 = Some ex_pool2) \<Longrightarrow> complete ex_P2 = Some ex_pool2 \<Longrightarrow>
   price_pool ex_dex ex_from ex_to [1, 100, 500] 1 SELL ev ne complete ex_sub2 = Some ex_quote2"
  by (auto simp add: price_pool_def Let_def ex_sub_fields ex_lower2 ex_price2 ex_dex_fields
      ex_eventPools_fields ex_quote2_def)

lemma ex_getPricesVolume:
  "getPricesVolume ex_dex ex_from ex_to [1, 100, 500] SELL 100 None =
     (\<lparr>blockNumber = 100, poolState = [ex_P1 \<mapsto> ex_chain ex_P1]\<rparr>, Some [ex_quote1, ex_quote2])"
proof -
  let ?ro = "[ex_P1 \<mapsto> ex_pool1, ex_P2 \<mapsto> ex_pool2]"
  let ?ev = "delete_disabled [ex_P1] ?ro"
  let ?ne = "[ex_P1 \<mapsto> ex_chain ex_P1]"
  let ?c0 = "\<lparr>blockNumber = 0, poolState = Map.empty :: Address \<rightharpoonup> (unit, unit) PoolState_scheme\<rparr>"
  have ev: "?ev ex_P1 = None" "?ev ex_P2 = Some ex_pool2"
    using ex_distinct by (simp_all add: delete_disabled_def)
  have missing: "missingPools ?ev Map.empty [ex_sub1, ex_sub2] = [ex_sub1]"
    by (simp add: missingPools_def ex_sub_fields ex_lower2 ev)
  have run: "getPricesVolume ex_dex ex_from ex_to [1, 100, 500] SELL 100 None =
     (case getOnChainState (eventPools ex_dex) [ex_sub1] 100 of
        Inl e \<Rightarrow> (?c0, None)
      | Inr fetched \<Rightarrow>
          (fst (updateNonEventPoolStateCache ?c0 fetched 100),
           Some (List.map_filter
             (price_pool ex_dex (wrapETH ex_dex ex_from) (wrapETH ex_dex ex_to) [1, 100, 500]
                (getBigIntPow (Token.decimals (if SELL = SELL then wrapETH ex_dex ex_from else wrapETH ex_dex ex_to))) SELL
                ?ev (snd (updateNonEventPoolStateCache ?c0 fetched 100))
                (?ro ++ snd (updateNonEventPoolStateCache ?c0 fetched 100)))
             [ex_sub1, ex_sub2])))"
  proof (rule getPricesVolume_fetch)
    show "SELL \<noteq> BUY" by simp
    show "allowedPools ex_dex None (getPools ex_dex (wrapETH ex_dex ex_from) (wrapETH ex_dex ex_to)) = [ex_sub1, ex_sub2]"
      by (simp add: allowedPools_def ex_dex_fields ex_getPools)
    show "[ex_sub1, ex_sub2] \<noteq> []" by simp
    show "getState (eventPools ex_dex) 100 = Inr (Some ?ro)"
      by (simp add: ex_dex_fields ex_eventPools_fields)
    show "?ro = (case Some ?ro of None \<Rightarrow> Map.empty | Some m \<Rightarrow> m)" by simp
    show "?ev = delete_disabled (eventDisabledPools ex_dex) ?ro" by (simp add: ex_dex_fields)
    show "getNonEventPoolStateCache (nonEventPoolStateCache ex_dex) 100 = (?c0, Map.empty)"
      by (simp add: getNonEventPoolStateCache_def ex_dex_fields)
    show "missingPools ?ev Map.empty [ex_sub1, ex_sub2] = [ex_sub1]"
      by (rule missing)
    show "[ex_sub1] \<noteq> []" by simp
  qed
  have upd: "updateNonEventPoolStateCache ?c0 ?ne 100 = (\<lparr>blockNumber = 100, poolState = ?ne\<rparr>, ?ne)"
    by (simp add: updateNonEventPoolStateCache_def)
  show ?thesis
    unfolding run
    using ex_distinct
    by (simp add: ex_dex_fields ex_fetch1 upd getBigIntPow_def ex_token_fields List.map_filter_simps
        ex_price_pool1 ex_price_pool2 ev)
qed

lemma ex_eventPools_no_snapshot_fields:
  "pools ex_eventPools_no_snapshot = pools ex_eventPools"
  "virtualBoostedPools ex_eventPools_no_snapshot = virtualBoostedPools ex_eventPools"
  "tryAggregate ex_eventPools_no_snapshot = tryAggregate ex_eventPools"
  "allPools ex_eventPools_no_snapshot = allPools ex_eventPools"
  "getState ex_eventPools_no_snapshot bn = Inr None"
  by (simp_all add: ex_eventPools_no_snapshot_def)

lemma ex_dex_no_snap_fields:
  "dexKey ex_dex_no_snap = ''BalancerV2''"
  "eventPools ex_dex_no_snap = ex_eventPools_no_snapshot"
  "eventDisabledPools ex_dex_no_snap = []"
  "nonEventPoolStateCache ex_dex_no_snap = \<lparr>blockNumber = 0, poolState = Map.empty\<rparr>"
  "wrapETH ex_dex_no_snap t = t"
  by (simp_all add: ex_dex_no_snap_def ex_dex_fields)

lemma ex_no_snap_getPricesPool:
  "getPricesPool ex_eventPools_no_snapshot = getPricesPool ex_eventPools"
  by (intro ext) (simp add: getPricesPool_def ex_eventPools_no_snapshot_fields cong: option.case_cong)

lemma ex_no_snap_price_pool: "price_pool ex_dex_no_snap = price_pool ex_dex"
  by (intro ext)
    (simp add: price_pool_def ex_dex_no_snap_fields ex_dex_fields ex_no_snap_getPricesPool
      ex_eventPools_no_snapshot_fields cong: option.case_cong sum.case_cong)

lemma ex_no_snap_getPools: "getPools ex_dex_no_snap ex_from ex_to = [ex_sub1, ex_sub2]"
  using ex_getPools
  by (simp add: getPools_def ex_dex_no_snap_fields ex_dex_fields ex_eventPools_no_snapshot_fields)

lemma ex_no_snap_fetch2:
  "getOnChainState ex_eventPools_no_snapshot [ex_sub1, ex_sub2] 100 =
     Inr [ex_P1 \<mapsto> ex_chain ex_P1, ex_P2 \<mapsto> ex_chain ex_P2]"
  by (simp add: getOnChainState_def ex_supported ex_sub_fields ex_chunk2 ex_lower2
      ex_strategy_fields ex_eventPools_fields ex_eventPools_no_snapshot_fields)

lemma ex_chain_P2: "ex_chain ex_P2 = ex_pool2"
  using ex_distinct by (simp add: ex_chain_def)

lemma ex_no_snap_missing:
  "missingPools Map.empty Map.empty [ex_sub1, ex_sub2] = [ex_sub1, ex_sub2]"
  by (simp add: missingPools_def)

lemma ex_no_snap_getPricesVolume:
  "getPricesVolume ex_dex_no_snap ex_from ex_to [1, 100, 500] SELL 100 None =
     (\<lparr>blockNumber = 100, poolState = [ex_P1 \<mapsto> ex_chain ex_P1, ex_P2 \<mapsto> ex_chain ex_P2]\<rparr>,
      Some [ex_quote1, ex_quote2])"
proof -
  let ?ne = "[ex_P1 \<mapsto> ex_chain ex_P1, ex_P2 \<mapsto> ex_chain ex_P2]"
  let ?c0 = "\<lparr>blockNumber = 0, poolState = Map.empty :: Address \<rightharpoonup> (unit, unit) PoolState_scheme\<rparr>"
  have run: "getPricesVolume ex_dex_no_snap ex_from ex_to [1, 100, 500] SELL 100 None =
     (case getOnChainState (eventPools ex_dex_no_snap) [ex_sub1, ex_sub2] 100 of
        Inl e \<Rightarrow> (?c0, None)
      | Inr fetched \<Rightarrow>
          (fst (updateNonEventPoolStateCache ?c0 fetched 100),
           Some (List.map_filter
             (price_pool ex_dex_no_snap (wrapETH ex_dex_no_snap ex_from) (wrapETH ex_dex_no_snap ex_to) [1, 100, 500]
                (getBigIntPow (Token.decimals (if SELL = SELL then wrapETH ex_dex_no_snap ex_from
                                               else wrapETH ex_dex_no_snap ex_to))) SELL
                Map.empty (snd (updateNonEventPoolStateCache ?c0 fetched 100))
                (Map.empty ++ snd (updateNonEventPoolStateCache ?c0 fetched 100)))
             [ex_sub1, ex_sub2])))"
  proof (rule getPricesVolume_fetch)
    show "SELL \<noteq> BUY" by simp
    show "allowedPools ex_dex_no_snap None
        (getPools ex_dex_no_snap (wrapETH ex_dex_no_snap ex_from) (wrapETH ex_dex_no_snap ex_to)) = [ex_sub1, ex_sub2]"
      by (simp add: allowedPools_def ex_dex_no_snap_fields ex_no_snap_getPools)
    show "[ex_sub1, ex_sub2] \<noteq> []" by simp
    show "getState (eventPools ex_dex_no_snap) 100 = Inr None"
      by (simp add: ex_dex_no_snap_fields ex_eventPools_no_snapshot_fields)
    show "Map.empty = (case None of None \<Rightarrow> Map.empty | Some m \<Rightarrow> m)" by simp
    show "Map.empty = delete_disabled (eventDisabledPools ex_dex_no_snap) Map.empty"
      by (simp add: delete_disabled_empty)
    show "getNonEventPoolStateCache (nonEventPoolStateCache ex_dex_no_snap) 100 = (?c0, Map.empty)"
      by (simp add: getNonEventPoolStateCache_def ex_dex_no_snap_fields)
    show "missingPools Map.empty Map.empty [ex_sub1, ex_sub2] = [ex_sub1, ex_sub2]"
      by (rule ex_no_snap_missing)
    show "[ex_sub1, ex_sub2] \<noteq> []" by simp
  qed
  have upd: "updateNonEventPoolStateCache ?c0 m 100 = (\<lparr>blockNumber = 100, poolState = m\<rparr>, m)" for m
    by (simp add: updateNonEventPoolStateCache_def)
  show ?thesis
    unfolding run
    using ex_distinct
    by (simp add: ex_dex_no_snap_fields ex_no_snap_fetch2 upd getBigIntPow_def ex_token_fields
        List.map_filter_simps ex_no_snap_price_pool ex_price_pool1 ex_price_pool2 ex_chain_P2)
qed

lemma ex_allowed_limited:
  "allowedPools ex_dex (Some ex_limitPools) [ex_sub1, ex_sub2] = [ex_sub2]"
  by (simp add: allowedPools_def pool_allowed_def ex_dex_fields ex_sub_fields ex_lower2
      ex_eventPools_fields ex_limitPools_def ex_distinct)

lemma ex_limited_getPricesVolume:
  "getPricesVolume ex_dex ex_from ex_to [1, 100, 500] SELL 100 (Some ex_limitPools) =
     (\<lparr>blockNumber = 0, poolState = Map.empty\<rparr>, Some [ex_quote2])"
proof -
  let ?ro = "[ex_P1 \<mapsto> ex_pool1, ex_P2 \<mapsto> ex_pool2]"
  let ?ev = "delete_disabled [ex_P1] ?ro"
  let ?c0 = "\<lparr>blockNumber = 0, poolState = Map.empty :: Address \<rightharpoonup> (unit, unit) PoolState_scheme\<rparr>"
  have ev: "?ev ex_P1 = None" "?ev ex_P2 = Some ex_pool2"
    using ex_distinct by (simp_all add: delete_disabled_def)
  have run: "getPricesVolume ex_dex ex_from ex_to [1, 100, 500] SELL 100 (Some ex_limitPools) =
     (?c0,
      Some (List.map_filter
             (price_pool ex_dex (wrapETH ex_dex ex_from) (wrapETH ex_dex ex_to) [1, 100, 500]
                (getBigIntPow (Token.decimals (if SELL = SELL then wrapETH ex_dex ex_from else wrapETH ex_dex ex_to))) SELL
                ?ev Map.empty (?ro ++ Map.empty))
             [ex_sub2]))"
  proof (rule getPricesVolume_cached)
    show "SELL \<noteq> BUY" by simp
    show "allowedPools ex_dex (Some ex_limitPools)
        (getPools ex_dex (wrapETH ex_dex ex_from) (wrapETH ex_dex ex_to)) = [ex_sub2]"
      by (simp add: ex_dex_fields ex_getPools ex_allowed_limited)
    show "[ex_sub2] \<noteq> []" by simp
    show "getState (eventPools ex_dex) 100 = Inr (Some ?ro)"
      by (simp add: ex_dex_fields ex_eventPools_fields)
    show "?ro = (case Some ?ro of None \<Rightarrow> Map.empty | Some m \<Rightarrow> m)" by simp
    show "?ev = delete_disabled (eventDisabledPools ex_dex) ?ro" by (simp add: ex_dex_fields)
    show "getNonEventPoolStateCache (nonEventPoolStateCache ex_dex) 100 = (?c0, Map.empty)"
      by (simp add: getNonEventPoolStateCache_def ex_dex_fields)
    show "missingPools ?ev Map.empty [ex_sub2] = []"
      by (simp add: missingPools_def ex_sub_fields ex_lower2 ev)
  qed
  show ?thesis
    unfolding run
    using ex_distinct
    by (simp add: ex_dex_fields getBigIntPow_def ex_token_fields List.map_filter_simps ex_price_pool2 ev)
qed

subsection \<open>The composed pool list and the unreadable chain, evaluated\<close>

lemma ex_lower3:
  "toLowerCase ex_V = ex_V" "toLowerCase ex_L1 = ex_L1" "toLowerCase ex_L2 = ex_L2"
  "toLowerCase ''VirtualBoosted'' = ''virtualboosted''"
  by code_simp+

lemma ex_split_virtual: "split_first (ex_hub_id @ ''virtualboosted'') ''virtualboosted'' = ex_hub_id"
  by code_simp

lemma ex_split_stable: "split_first ex_P2_id ''stable'' = ex_P2_id"
  by code_simp

lemma ex_hub_neq: "ex_P2_id \<noteq> ex_hub_id"
  by (simp add: ex_P2_id_def ex_hub_id_def)

lemma ex_distinct3:
  "ex_V \<noteq> ex_P1" "ex_V \<noteq> ex_P2" "ex_P1 \<noteq> ex_V" "ex_P2 \<noteq> ex_V"
  "ex_L1 \<noteq> ex_L2" "ex_L2 \<noteq> ex_L1" "ex_V \<noteq> ex_L1" "ex_V \<noteq> ex_L2" "ex_L1 \<noteq> ex_V" "ex_L2 \<noteq> ex_V"
  "ex_P2 \<noteq> ex_L1" "ex_P2 \<noteq> ex_L2"
  by (simp_all add: ex_V_def ex_L1_def ex_L2_def ex_P1_def ex_P2_def)

lemma ex_distinct4:
  "ex_P2 \<noteq> ex_V @ ''virtualboosted''" "ex_L1 \<noteq> ex_V @ ''virtualboosted''"
  "ex_L2 \<noteq> ex_V @ ''virtualboosted''" "ex_V \<noteq> ex_V @ ''virtualboosted''"
  by (simp_all add: ex_V_def ex_L1_def ex_L2_def ex_P2_def)

lemma ex_vsub_fields:
  "id' ex_vsub = ex_hub_id @ ''virtualboosted''" "SubgraphPoolBase.address ex_vsub = ex_V"
  "poolType ex_vsub = ''VirtualBoosted''"
  "SubgraphPoolBase.tokens ex_vsub =
       [\<lparr>SubgraphToken.address = ex_A, SubgraphToken.decimals = 0, SubgraphToken.linearPoolAddr = Some ex_L1\<rparr>,
        \<lparr>SubgraphToken.address = ex_B, SubgraphToken.decimals = 0, SubgraphToken.linearPoolAddr = Some ex_L2\<rparr>]"
  by (simp_all add: ex_vsub_def)

lemma ex_vsub_neq: "ex_vsub \<noteq> ex_sub2"
  by (simp add: ex_vsub_def ex_sub2_def)

lemma ex_eventPools_virtual_fields:
  "pools ex_eventPools_virtual ''Stable'' = Some ex_strategy"
  "tryAggregate ex_eventPools_virtual = tryAggregate ex_eventPools"
  "getState ex_eventPools_virtual = getState ex_eventPools"
  "allPools ex_eventPools_virtual = [ex_vsub, ex_sub2]"
  "virtualBoostedPools ex_eventPools_virtual = [ex_hub_id \<mapsto> ex_group]"
  "pools ex_eventPools_virtual ''VirtualBoosted'' = Some ex_strategy"
  by (simp_all add: ex_eventPools_virtual_def ex_eventPools_def pools_registry_def)

lemma ex_dex_virtual_fields:
  "dexKey ex_dex_virtual = ''BalancerV2''"
  "eventPools ex_dex_virtual = ex_eventPools_virtual"
  "eventDisabledPools ex_dex_virtual = []"
  "nonEventPoolStateCache ex_dex_virtual = \<lparr>blockNumber = 0, poolState = Map.empty\<rparr>"
  "wrapETH ex_dex_virtual t = t"
  by (simp_all add: ex_dex_virtual_def ex_dex_fields)

lemma ex_virtual_getPools: "getPools ex_dex_virtual ex_from ex_to = [ex_vsub, ex_sub2]"
  by (simp add: getPools_def ex_dex_virtual_fields ex_eventPools_virtual_fields ex_vsub_fields
      ex_sub_fields ex_sub_tokens_def ex_token_fields ex_lower ex_lower2)

lemma ex_virtual_composed: "virtual_pools_composed ex_dex_virtual"
  by (simp add: virtual_pools_composed_def ex_dex_virtual_fields ex_eventPools_virtual_fields
      ex_vsub_fields ex_sub_fields ex_lower3 ex_split_virtual)

lemma ex_group_fields:
  "mainTokens ex_group =
     [\<lparr>MainToken.address = ex_A, MainToken.decimals = 0, MainToken.linearPoolAddr = ex_L1\<rparr>,
      \<lparr>MainToken.address = ex_B, MainToken.decimals = 0, MainToken.linearPoolAddr = ex_L2\<rparr>]"
  by (simp add: ex_group_def)

lemma ex_allowed_virtual:
  "allowedPools ex_dex_virtual (Some ex_limit_virtual) [ex_vsub, ex_sub2] = [ex_vsub]"
  using ex_distinct3 ex_distinct4 ex_hub_neq
  by (simp add: allowedPools_def pool_allowed_def ex_dex_virtual_fields ex_vsub_fields ex_sub_fields
      ex_lower2 ex_lower3 ex_split_virtual ex_split_stable ex_eventPools_virtual_fields
      ex_limit_virtual_def ex_group_fields)

lemma ex_allowed_no_spoke:
  "allowedPools ex_dex_virtual (Some ex_limit_no_spoke) [ex_vsub, ex_sub2] = []"
  using ex_distinct3 ex_distinct4 ex_hub_neq
  by (simp add: allowedPools_def pool_allowed_def ex_dex_virtual_fields ex_vsub_fields ex_sub_fields
      ex_lower2 ex_lower3 ex_split_virtual ex_split_stable ex_eventPools_virtual_fields
      ex_limit_no_spoke_def ex_group_fields)

lemma ex_supported_virtual: "isSupportedPool ''VirtualBoosted''"
  by (simp add: isSupportedPool_def BalancerPoolTypes_def)

lemma ex_chain_V: "ex_chain ex_V = ex_pool2"
  using ex_distinct3 by (simp add: ex_chain_def)

lemma ex_virtual_fetch:
  "getOnChainState ex_eventPools_virtual [ex_vsub] 100 = Inr [ex_V \<mapsto> ex_pool2]"
  by (simp add: getOnChainState_def ex_supported_virtual ex_vsub_fields ex_chunk ex_lower3
      ex_strategy_fields ex_eventPools_fields ex_eventPools_virtual_fields ex_chain_V)

lemma ex_virtual_price:
  "states ex_V = Some ex_pool2 \<Longrightarrow>
   getPricesPool ex_eventPools_virtual ex_from ex_to ex_vsub states [1, 100, 500] 1 SELL =
     Inr (Some \<lparr>unit = Some 0, prices = [0, 98, 454], gasCost = 150000\<rparr>)"
  by (simp add: getPricesPool_def ex_supported_virtual ex_vsub_fields ex_eventPools_virtual_fields
      ex_strategy_fields ex_token_fields ex_lower ex_lower3 ex_chain_tokens)

lemma ex_virtual_price_pool:
  "ev ex_V = None \<Longrightarrow> ne ex_V = Some ex_pool2 \<Longrightarrow> complete ex_V = Some ex_pool2 \<Longrightarrow>
   price_pool ex_dex_virtual ex_from ex_to [1, 100, 500] 1 SELL ev ne complete ex_vsub = Some ex_quote3"
  by (simp add: price_pool_def Let_def ex_vsub_fields ex_lower3 ex_virtual_price ex_dex_virtual_fields
      ex_eventPools_virtual_fields ex_split_virtual ex_group_fields ex_quote3_def)

lemma ex_virtual_getPricesVolume:
  "getPricesVolume ex_dex_virtual ex_from ex_to [1, 100, 500] SELL 100 (Some ex_limit_virtual) =
     (\<lparr>blockNumber = 100, poolState = [ex_V \<mapsto> ex_pool2]\<rparr>, Some [ex_quote3])"
proof -
  let ?ro = "[ex_P1 \<mapsto> ex_pool1, ex_P2 \<mapsto> ex_pool2]"
  let ?c0 = "\<lparr>blockNumber = 0, poolState = Map.empty :: Address \<rightharpoonup> (unit, unit) PoolState_scheme\<rparr>"
  have ro: "?ro ex_V = None"
    using ex_distinct3 by simp
  have run: "getPricesVolume ex_dex_virtual ex_from ex_to [1, 100, 500] SELL 100 (Some ex_limit_virtual) =
     (case getOnChainState (eventPools ex_dex_virtual) [ex_vsub] 100 of
        Inl e \<Rightarrow> (?c0, None)
      | Inr fetched \<Rightarrow>
          (fst (updateNonEventPoolStateCache ?c0 fetched 100),
           Some (List.map_filter
             (price_pool ex_dex_virtual (wrapETH ex_dex_virtual ex_from) (wrapETH ex_dex_virtual ex_to)
                [1, 100, 500]
                (getBigIntPow (Token.decimals (if SELL = SELL then wrapETH ex_dex_virtual ex_from
                                               else wrapETH ex_dex_virtual ex_to))) SELL
                ?ro (snd (updateNonEventPoolStateCache ?c0 fetched 100))
                (?ro ++ snd (updateNonEventPoolStateCache ?c0 fetched 100)))
             [ex_vsub])))"
  proof (rule getPricesVolume_fetch)
    show "SELL \<noteq> BUY" by simp
    show "allowedPools ex_dex_virtual (Some ex_limit_virtual)
        (getPools ex_dex_virtual (wrapETH ex_dex_virtual ex_from) (wrapETH ex_dex_virtual ex_to)) = [ex_vsub]"
      by (simp add: ex_dex_virtual_fields ex_virtual_getPools ex_allowed_virtual)
    show "[ex_vsub] \<noteq> []" by simp
    show "getState (eventPools ex_dex_virtual) 100 = Inr (Some ?ro)"
      by (simp add: ex_dex_virtual_fields ex_eventPools_virtual_fields ex_eventPools_fields)
    show "?ro = (case Some ?ro of None \<Rightarrow> Map.empty | Some m \<Rightarrow> m)" by simp
    show "?ro = delete_disabled (eventDisabledPools ex_dex_virtual) ?ro"
      by (simp add: ex_dex_virtual_fields delete_disabled_def)
    show "getNonEventPoolStateCache (nonEventPoolStateCache ex_dex_virtual) 100 = (?c0, Map.empty)"
      by (simp add: getNonEventPoolStateCache_def ex_dex_virtual_fields)
    show "missingPools ?ro Map.empty [ex_vsub] = [ex_vsub]"
      using ex_distinct3 by (simp add: missingPools_def ex_vsub_fields ex_lower3)
    show "[ex_vsub] \<noteq> []" by simp
  qed
  have upd: "updateNonEventPoolStateCache ?c0 m 100 = (\<lparr>blockNumber = 100, poolState = m\<rparr>, m)" for m
    by (simp add: updateNonEventPoolStateCache_def)
  show ?thesis
    unfolding run
    using ex_distinct3
    by (simp add: ex_dex_virtual_fields ex_virtual_fetch upd getBigIntPow_def ex_token_fields
        List.map_filter_simps ex_virtual_price_pool)
qed

lemma ex_eventPools_unreachable_fields:
  "pools ex_eventPools_unreachable = pools ex_eventPools"
  "virtualBoostedPools ex_eventPools_unreachable = virtualBoostedPools ex_eventPools"
  "tryAggregate ex_eventPools_unreachable calls bn = Inl FetchError"
  "allPools ex_eventPools_unreachable = allPools ex_eventPools"
  "getState ex_eventPools_unreachable bn = Inr None"
  by (simp_all add: ex_eventPools_unreachable_def ex_eventPools_no_snapshot_def)

lemma ex_dex_unreachable_fields:
  "dexKey ex_dex_unreachable = ''BalancerV2''"
  "eventPools ex_dex_unreachable = ex_eventPools_unreachable"
  "eventDisabledPools ex_dex_unreachable = []"
  "nonEventPoolStateCache ex_dex_unreachable = \<lparr>blockNumber = 0, poolState = Map.empty\<rparr>"
  "wrapETH ex_dex_unreachable t = t"
  by (simp_all add: ex_dex_unreachable_def ex_dex_no_snap_fields)

lemma ex_unreachable_getPools: "getPools ex_dex_unreachable ex_from ex_to = [ex_sub1, ex_sub2]"
  using ex_getPools
  by (simp add: getPools_def ex_dex_unreachable_fields ex_dex_fields ex_eventPools_unreachable_fields)

lemma ex_unreachable_fetch2:
  "getOnChainState ex_eventPools_unreachable [ex_sub1, ex_sub2] 100 = Inl FetchError"
  by (simp add: getOnChainState_def ex_supported ex_sub_fields ex_chunk2 ex_lower2
      ex_strategy_fields ex_eventPools_fields ex_eventPools_unreachable_fields)

lemma ex_unreachable_getPricesVolume:
  "getPricesVolume ex_dex_unreachable ex_from ex_to [1, 100, 500] SELL 100 None =
     (\<lparr>blockNumber = 0, poolState = Map.empty\<rparr>, None)"
proof -
  let ?c0 = "\<lparr>blockNumber = 0, poolState = Map.empty :: Address \<rightharpoonup> (unit, unit) PoolState_scheme\<rparr>"
  have run: "getPricesVolume ex_dex_unreachable ex_from ex_to [1, 100, 500] SELL 100 None =
     (case getOnChainState (eventPools ex_dex_unreachable) [ex_sub1, ex_sub2] 100 of
        Inl e \<Rightarrow> (?c0, None)
      | Inr fetched \<Rightarrow>
          (fst (updateNonEventPoolStateCache ?c0 fetched 100),
           Some (List.map_filter
             (price_pool ex_dex_unreachable (wrapETH ex_dex_unreachable ex_from)
                (wrapETH ex_dex_unreachable ex_to) [1, 100, 500]
                (getBigIntPow (Token.decimals (if SELL = SELL then wrapETH ex_dex_unreachable ex_from
                                               else wrapETH ex_dex_unreachable ex_to))) SELL
                Map.empty (snd (updateNonEventPoolStateCache ?c0 fetched 100))
                (Map.empty ++ snd (updateNonEventPoolStateCache ?c0 fetched 100)))
             [ex_sub1, ex_sub2])))"
  proof (rule getPricesVolume_fetch)
    show "SELL \<noteq> BUY" by simp
    show "allowedPools ex_dex_unreachable None
        (getPools ex_dex_unreachable (wrapETH ex_dex_unreachable ex_from)
           (wrapETH ex_dex_unreachable ex_to)) = [ex_sub1, ex_sub2]"
      by (simp add: allowedPools_def ex_dex_unreachable_fields ex_unreachable_getPools)
    show "[ex_sub1, ex_sub2] \<noteq> []" by simp
    show "getState (eventPools ex_dex_unreachable) 100 = Inr None"
      by (simp add: ex_dex_unreachable_fields ex_eventPools_unreachable_fields)
    show "Map.empty = (case None of None \<Rightarrow> Map.empty | Some m \<Rightarrow> m)" by simp
    show "Map.empty = delete_disabled (eventDisabledPools ex_dex_unreachable) Map.empty"
      by (simp add: delete_disabled_empty)
    show "getNonEventPoolStateCache (nonEventPoolStateCache ex_dex_unreachable) 100 = (?c0, Map.empty)"
      by (simp add: getNonEventPoolStateCache_def ex_dex_unreachable_fields)
    show "missingPools Map.empty Map.empty [ex_sub1, ex_sub2] = [ex_sub1, ex_sub2]"
      by (rule ex_no_snap_missing)
    show "[ex_sub1, ex_sub2] \<noteq> []" by simp
  qed
  show ?thesis
    unfolding run by (simp add: ex_dex_unreachable_fields ex_unreachable_fetch2)
qed

subsection \<open>The claims on quoting\<close>

text \<open>
  Claim C10. On the BUY side the quoting interface yields nothing, whatever the other
  arguments and the pool state: \<^verbatim>\<open>getPricesVolume\<close> returns \<^verbatim>\<open>null\<close> (and leaves the
  cache as it is), \<^verbatim>\<open>getPoolIdentifiers\<close> returns the empty list, \<^verbatim>\<open>getAdapters\<close>
  returns \<^verbatim>\<open>null\<close>.
\<close>

theorem buy_side_yields_nothing:
  "getPricesVolume dex from to amounts BUY bn limitPools = (nonEventPoolStateCache dex, None)
   \<and> getPoolIdentifiers dex from to BUY bn = []
   \<and> getAdapters dex BUY = None"
  by (simp add: getPricesVolume_def getPoolIdentifiers_def getAdapters_def)

theorem buy_side_yields_nothing_witness:
  "getPricesVolume ex_dex ex_from ex_to [1, 100, 500] BUY 100 None
      = (\<lparr>blockNumber = 0, poolState = Map.empty\<rparr>, None)
   \<and> getPoolIdentifiers ex_dex ex_from ex_to BUY 100 = []
   \<and> getAdapters ex_dex BUY = None"
  using buy_side_yields_nothing [of ex_dex ex_from ex_to "[1, 100, 500]" 100 None]
  by (simp add: ex_dex_fields)

text \<open>
  Claim C6. The cache never mixes block heights. Let every pool state carry the height
  it was read at (\<open>height\<close>). If the cache starts with entries of its recorded
  \<^verbatim>\<open>blockNumber\<close> only, and every update is given entries of the height it is called
  with, then after any sequence of reads and updates every entry of the cache has the
  height that the cache records. Moreover, on the cache reached, a read at another height
  empties the map, an update at another height replaces the map by the new entries alone,
  and an update at the recorded height merges the new entries into the existing ones.
\<close>

theorem nonEventCache_single_height:
  fixes height :: "'s \<Rightarrow> nat"
  assumes "\<forall>st \<in> ran (poolState cache). height st = blockNumber cache"
    and "\<forall>c \<in> set calls. case c of Get bn \<Rightarrow> True | Update ps bn \<Rightarrow> \<forall>st \<in> ran ps. height st = bn"
  shows "(\<forall>st \<in> ran (poolState (cache_run cache calls)).
            height st = blockNumber (cache_run cache calls))
     \<and> (\<forall>h2 entries. h2 \<noteq> blockNumber (cache_run cache calls) \<longrightarrow>
            poolState (fst (getNonEventPoolStateCache (cache_run cache calls) h2)) = Map.empty
          \<and> fst (updateNonEventPoolStateCache (cache_run cache calls) entries h2)
              = (cache_run cache calls)\<lparr>blockNumber := h2, poolState := entries\<rparr>)
     \<and> (\<forall>entries. fst (updateNonEventPoolStateCache (cache_run cache calls) entries
                          (blockNumber (cache_run cache calls)))
              = (cache_run cache calls)\<lparr>poolState := poolState (cache_run cache calls) ++ entries\<rparr>)"
  using cache_run_invariant [OF assms]
  by (simp add: getNonEventPoolStateCache_def updateNonEventPoolStateCache_def Let_def)

theorem nonEventCache_single_height_witness:
  "poolState \<lparr>blockNumber = 0, poolState = Map.empty :: Address \<rightharpoonup> ((unit, unit) PoolState_scheme \<times> nat)\<rparr>
      = Map.empty
   \<and> ex_tagged_calls = [Update [ex_P1 \<mapsto> (ex_pool1, 5)] 5, Get 7, Update [ex_P2 \<mapsto> (ex_pool2, 7)] 7]
   \<and> cache_run \<lparr>blockNumber = 0, poolState = Map.empty\<rparr> ex_tagged_calls
        = \<lparr>blockNumber = 7, poolState = [ex_P2 \<mapsto> (ex_pool2, 7)]\<rparr>
   \<and> poolState (cache_run \<lparr>blockNumber = 0, poolState = Map.empty\<rparr> ex_tagged_calls) ex_P2
        = Some (ex_pool2, 7)
   \<and> snd (ex_pool2, 7 :: nat) = blockNumber (cache_run \<lparr>blockNumber = 0, poolState = Map.empty\<rparr> ex_tagged_calls)"
proof -
  let ?c0 = "\<lparr>blockNumber = 0, poolState = Map.empty :: Address \<rightharpoonup> ((unit, unit) PoolState_scheme \<times> nat)\<rparr>"
  have init: "\<forall>st \<in> ran (poolState ?c0). snd st = blockNumber ?c0"
    by simp
  have calls: "\<forall>c \<in> set ex_tagged_calls. case c of Get bn \<Rightarrow> True | Update ps bn \<Rightarrow> \<forall>st \<in> ran ps. snd st = bn"
    by (simp add: ex_tagged_calls_def)
  have run: "cache_run ?c0 ex_tagged_calls = \<lparr>blockNumber = 7, poolState = [ex_P2 \<mapsto> (ex_pool2, 7)]\<rparr>"
    by (simp add: cache_run_def ex_tagged_calls_def getNonEventPoolStateCache_def
        updateNonEventPoolStateCache_def)
  have held: "poolState (cache_run ?c0 ex_tagged_calls) ex_P2 = Some (ex_pool2, 7)"
    by (simp add: run)
  then have "(ex_pool2, 7) \<in> ran (poolState (cache_run ?c0 ex_tagged_calls))"
    by (rule ranI)
  then have "snd (ex_pool2, 7 :: nat) = blockNumber (cache_run ?c0 ex_tagged_calls)"
    using nonEventCache_single_height [of ?c0 snd ex_tagged_calls, OF init calls] by blast
  then show ?thesis
    using run held by (simp add: ex_tagged_calls_def)
qed

text \<open>
  Claim C7, amended. For a supported pool whose pair data parse: when the strategy's
  \<^verbatim>\<open>checkBalance\<close> rejects the request, \<^verbatim>\<open>getPricesPool\<close> returns \<^verbatim>\<open>null\<close>, whatever the
  sell function would do. When it accepts, the result is that of the strategy's sell
  function on the amount vector with its first element replaced by the unit volume and the
  others unchanged: an exception propagates, and of the outputs the first is the
  \<^verbatim>\<open>unit\<close> price, and \<^verbatim>\<open>prices\<close> is 0 followed by the outputs for the remaining amounts.
\<close>

theorem getPricesPool_unit_probe:
  assumes "isSupportedPool (poolType pool)"
    and "pools this (poolType pool) = Some strat"
    and "parsePoolPairData strat pool poolStates (Token.address from) (Token.address to)
           (virtualBoostedPools this) = Inr poolPairData"
    and "checkBalance strat (a # rest) unitVolume side poolPairData = Inr ok"
  shows "getPricesPool this from to pool poolStates (a # rest) unitVolume side =
     (if ok then
        (case onSell strat (unitVolume # rest) poolPairData of
           Inl e \<Rightarrow> Inl e
         | Inr out \<Rightarrow>
             Inr (Some \<lparr>unit = first_elem out, prices = 0 # drop 1 out,
                        gasCost = pairGasCost strat poolPairData\<rparr>))
      else Inr None)
   \<and> (\<forall>p ps. ok \<and> onSell strat (unitVolume # rest) poolPairData = Inr (p # ps) \<longrightarrow>
         getPricesPool this from to pool poolStates (a # rest) unitVolume side =
           Inr (Some \<lparr>unit = Some p, prices = 0 # ps, gasCost = pairGasCost strat poolPairData\<rparr>))"
  using assms by (simp add: getPricesPool_def)

theorem getPricesPool_unit_probe_witness:
  "isSupportedPool (poolType ex_sub1)
   \<and> pools ex_eventPools (poolType ex_sub1) = Some ex_strategy
   \<and> parsePoolPairData ex_strategy ex_sub1 [ex_P1 \<mapsto> ex_pool1] (Token.address ex_from) (Token.address ex_to)
         (virtualBoostedPools ex_eventPools) = Inr (1000, 2000)
   \<and> checkBalance ex_strategy (7 # [100, 500]) 1 SELL (1000, 2000) = Inr True
   \<and> onSell ex_strategy (1 # [100, 500]) (1000, 2000) = Inr (1 # [181, 666])
   \<and> getPricesPool ex_eventPools ex_from ex_to ex_sub1 [ex_P1 \<mapsto> ex_pool1] (7 # [100, 500]) 1 SELL =
        Inr (Some \<lparr>unit = Some 1, prices = [0, 181, 666], gasCost = 150000\<rparr>)
   \<and> checkBalance ex_strategy (1 # [100, 5000]) 1 SELL (1000, 2000) = Inr False
   \<and> getPricesPool ex_eventPools ex_from ex_to ex_sub1 [ex_P1 \<mapsto> ex_pool1] (1 # [100, 5000]) 1 SELL =
        Inr None"
proof -
  have sup: "isSupportedPool (poolType ex_sub1)"
    by (simp add: ex_sub_fields ex_supported)
  have reg: "pools ex_eventPools (poolType ex_sub1) = Some ex_strategy"
    by (simp add: ex_sub_fields ex_eventPools_fields)
  have parse: "parsePoolPairData ex_strategy ex_sub1 [ex_P1 \<mapsto> ex_pool1] (Token.address ex_from)
         (Token.address ex_to) (virtualBoostedPools ex_eventPools) = Inr (1000, 2000)"
    by (simp add: ex_strategy_fields ex_sub_fields ex_token_fields ex_lower ex_lower2 ex_chain_tokens)
  have chk: "checkBalance ex_strategy (7 # [100, 500]) 1 SELL (1000, 2000) = Inr True"
    by (simp add: ex_strategy_fields)
  have rej: "checkBalance ex_strategy (1 # [100, 5000]) 1 SELL (1000, 2000) = Inr False"
    by (simp add: ex_strategy_fields)
  have sell: "onSell ex_strategy (1 # [100, 500]) (1000, 2000) = Inr (1 # [181, 666])"
    by (simp add: ex_strategy_fields)
  have accepted: "getPricesPool ex_eventPools ex_from ex_to ex_sub1 [ex_P1 \<mapsto> ex_pool1] (7 # [100, 500]) 1 SELL =
        Inr (Some \<lparr>unit = Some 1, prices = [0, 181, 666], gasCost = 150000\<rparr>)"
    using getPricesPool_unit_probe [OF sup reg parse chk] sell
    by (simp add: ex_strategy_fields)
  have rejected: "getPricesPool ex_eventPools ex_from ex_to ex_sub1 [ex_P1 \<mapsto> ex_pool1] (1 # [100, 5000]) 1 SELL =
        Inr None"
    using getPricesPool_unit_probe [OF sup reg parse rej] by simp
  show ?thesis
    using sup reg parse chk sell accepted rej rejected by simp
qed

text \<open>
  The claim C7 as stated fails: for the supported pool P1 with balance 1000 of the token
  sold and the non-empty amounts 1, 100, 5000, \<^verbatim>\<open>checkBalance\<close> rejects and
  \<^verbatim>\<open>getPricesPool\<close> returns \<^verbatim>\<open>null\<close>: no sell function is evaluated and no price
  returned.
\<close>

theorem getPricesPool_rejected_counterexample:
  "isSupportedPool (poolType ex_sub1)
   \<and> [1, 100, 5000 :: int] \<noteq> []
   \<and> getPricesPool ex_eventPools ex_from ex_to ex_sub1 [ex_P1 \<mapsto> ex_pool1] [1, 100, 5000] 1 SELL = Inr None"
  by (simp add: getPricesPool_def ex_supported ex_sub_fields ex_eventPools_fields ex_strategy_fields
      ex_token_fields ex_lower ex_lower2 ex_chain_tokens)

text \<open>
  Claim C8. With an allow-list, a candidate is kept exactly when its identifier
  \<^verbatim>\<open>{dexKey}_{poolAddress}\<close> is in the list and, if the dictionary of virtual boosted
  pools has a group for its id, its \<^verbatim>\<open>{dexKey}_{poolAddress}virtualboosted\<close> identifier and the
  \<^verbatim>\<open>{dexKey}_{linearPoolAddr}\<close> identifier of every main token of the group are in the
  list too; every returned price belongs to a candidate that was kept. The pool list
  being composed, a candidate of pool type \<^verbatim>\<open>VirtualBoosted\<close> is therefore kept only if its
  simple identifier, its \<^verbatim>\<open>virtualboosted\<close> identifier and the identifier of every spoke
  pool of its group are in the list.
\<close>

theorem limitPools_filter:
  "(pool \<in> set (allowedPools dex (Some limitPools) candidates) \<longleftrightarrow>
       pool \<in> set candidates
     \<and> dexKey dex @ ''_'' @ toLowerCase (SubgraphPoolBase.address pool) \<in> set limitPools
     \<and> (\<forall>vb. virtualBoostedPools (eventPools dex) (split_first (id' pool) (toLowerCase (poolType pool))) = Some vb \<longrightarrow>
          dexKey dex @ ''_'' @ toLowerCase (SubgraphPoolBase.address pool) @ ''virtualboosted'' \<in> set limitPools
          \<and> (\<forall>t \<in> set (mainTokens vb).
                dexKey dex @ ''_'' @ toLowerCase (MainToken.linearPoolAddr t) \<in> set limitPools)))
   \<and> (getPricesVolume dex from to amounts side bn (Some limitPools) = (cache', Some quotes) \<longrightarrow>
        (\<forall>q \<in> set quotes.
           \<exists>p \<in> set (allowedPools dex (Some limitPools) (getPools dex (wrapETH dex from) (wrapETH dex to))).
             poolId (data q) = id' p \<and> hd (poolAddresses q) = toLowerCase (SubgraphPoolBase.address p)))
   \<and> (virtual_pools_composed dex \<and> set candidates \<subseteq> set (allPools (eventPools dex))
        \<and> poolType pool = ''VirtualBoosted''
        \<and> pool \<in> set (allowedPools dex (Some limitPools) candidates) \<longrightarrow>
          dexKey dex @ ''_'' @ toLowerCase (SubgraphPoolBase.address pool) \<in> set limitPools
        \<and> dexKey dex @ ''_'' @ toLowerCase (SubgraphPoolBase.address pool) @ ''virtualboosted'' \<in> set limitPools
        \<and> (\<exists>vb. virtualBoostedPools (eventPools dex) (split_first (id' pool) (toLowerCase (poolType pool))) = Some vb
              \<and> (\<forall>t \<in> set (mainTokens vb).
                    dexKey dex @ ''_'' @ toLowerCase (MainToken.linearPoolAddr t) \<in> set limitPools)))
   \<and> set (getPools dex (wrapETH dex from) (wrapETH dex to)) \<subseteq> set (allPools (eventPools dex))"
proof (intro conjI impI ballI)
  show kept: "pool \<in> set (allowedPools dex (Some limitPools) candidates) \<longleftrightarrow>
       pool \<in> set candidates
     \<and> dexKey dex @ ''_'' @ toLowerCase (SubgraphPoolBase.address pool) \<in> set limitPools
     \<and> (\<forall>vb. virtualBoostedPools (eventPools dex) (split_first (id' pool) (toLowerCase (poolType pool))) = Some vb \<longrightarrow>
          dexKey dex @ ''_'' @ toLowerCase (SubgraphPoolBase.address pool) @ ''virtualboosted'' \<in> set limitPools
          \<and> (\<forall>t \<in> set (mainTokens vb).
                dexKey dex @ ''_'' @ toLowerCase (MainToken.linearPoolAddr t) \<in> set limitPools))"
    by (simp add: allowedPools_def pool_allowed_iff)
  show "set (getPools dex (wrapETH dex from) (wrapETH dex to)) \<subseteq> set (allPools (eventPools dex))"
    by (auto simp: getPools_def dest: in_set_takeD)
  {
    assume a: "virtual_pools_composed dex \<and> set candidates \<subseteq> set (allPools (eventPools dex))
        \<and> poolType pool = ''VirtualBoosted''
        \<and> pool \<in> set (allowedPools dex (Some limitPools) candidates)"
    then have mem: "pool \<in> set candidates" by (simp add: allowedPools_def)
    then have "pool \<in> set (allPools (eventPools dex))" using a by blast
    then obtain vb where vb: "virtualBoostedPools (eventPools dex)
        (split_first (id' pool) (toLowerCase (poolType pool))) = Some vb"
      using a by (auto simp: virtual_pools_composed_def)
    have tests: "dexKey dex @ ''_'' @ toLowerCase (SubgraphPoolBase.address pool) \<in> set limitPools
        \<and> dexKey dex @ ''_'' @ toLowerCase (SubgraphPoolBase.address pool) @ ''virtualboosted'' \<in> set limitPools
        \<and> (\<forall>t \<in> set (mainTokens vb).
              dexKey dex @ ''_'' @ toLowerCase (MainToken.linearPoolAddr t) \<in> set limitPools)"
      using a vb kept by blast
    show "dexKey dex @ ''_'' @ toLowerCase (SubgraphPoolBase.address pool) \<in> set limitPools"
      using tests by blast
    show "dexKey dex @ ''_'' @ toLowerCase (SubgraphPoolBase.address pool) @ ''virtualboosted'' \<in> set limitPools"
      using tests by blast
    show "\<exists>vb. virtualBoostedPools (eventPools dex) (split_first (id' pool) (toLowerCase (poolType pool))) = Some vb
              \<and> (\<forall>t \<in> set (mainTokens vb).
                    dexKey dex @ ''_'' @ toLowerCase (MainToken.linearPoolAddr t) \<in> set limitPools)"
      using tests vb by blast
  }
next
  fix q
  assume run: "getPricesVolume dex from to amounts side bn (Some limitPools) = (cache', Some quotes)"
    and q: "q \<in> set quotes"
  let ?cands = "getPools dex (wrapETH dex from) (wrapETH dex to)"
  obtain ro where quotes: "quotes = List.map_filter
        (price_pool dex (wrapETH dex from) (wrapETH dex to) amounts
           (getBigIntPow (Token.decimals (if side = SELL then wrapETH dex from else wrapETH dex to))) side
           (delete_disabled (eventDisabledPools dex) (case ro of None \<Rightarrow> Map.empty | Some m \<Rightarrow> m))
           (poolState cache') ((case ro of None \<Rightarrow> Map.empty | Some m \<Rightarrow> m) ++ poolState cache'))
        (allowedPools dex (Some limitPools) ?cands)"
    using getPricesVolume_Some [OF run] by blast
  obtain p where p: "p \<in> set (allowedPools dex (Some limitPools) ?cands)"
    and priced: "price_pool dex (wrapETH dex from) (wrapETH dex to) amounts
           (getBigIntPow (Token.decimals (if side = SELL then wrapETH dex from else wrapETH dex to))) side
           (delete_disabled (eventDisabledPools dex) (case ro of None \<Rightarrow> Map.empty | Some m \<Rightarrow> m))
           (poolState cache') ((case ro of None \<Rightarrow> Map.empty | Some m \<Rightarrow> m) ++ poolState cache') p = Some q"
    using q unfolding quotes by (blast dest: map_filter_mem)
  show "\<exists>p \<in> set (allowedPools dex (Some limitPools) ?cands).
          poolId (data q) = id' p \<and> hd (poolAddresses q) = toLowerCase (SubgraphPoolBase.address p)"
    using p price_pool_Some [OF priced] by blast
qed

theorem limitPools_filter_witness:
  "ex_sub2 \<in> set (allowedPools ex_dex (Some ex_limitPools) [ex_sub1, ex_sub2])
   \<and> ex_sub1 \<notin> set (allowedPools ex_dex (Some ex_limitPools) [ex_sub1, ex_sub2])
   \<and> dexKey ex_dex @ ''_'' @ toLowerCase (SubgraphPoolBase.address ex_sub1) \<notin> set ex_limitPools
   \<and> dexKey ex_dex @ ''_'' @ toLowerCase (SubgraphPoolBase.address ex_sub2) \<in> set ex_limitPools
   \<and> virtual_pools_composed ex_dex_virtual
   \<and> getPools ex_dex_virtual (wrapETH ex_dex_virtual ex_from) (wrapETH ex_dex_virtual ex_to) = [ex_vsub, ex_sub2]
   \<and> set [ex_vsub, ex_sub2] \<subseteq> set (allPools (eventPools ex_dex_virtual))
   \<and> poolType ex_vsub = ''VirtualBoosted''
   \<and> ex_vsub \<in> set (allowedPools ex_dex_virtual (Some ex_limit_virtual) [ex_vsub, ex_sub2])
   \<and> ex_sub2 \<notin> set (allowedPools ex_dex_virtual (Some ex_limit_virtual) [ex_vsub, ex_sub2])
   \<and> dexKey ex_dex_virtual @ ''_'' @ toLowerCase (SubgraphPoolBase.address ex_sub2) \<notin> set ex_limit_virtual
   \<and> dexKey ex_dex_virtual @ ''_'' @ toLowerCase (SubgraphPoolBase.address ex_vsub) \<in> set ex_limit_virtual
   \<and> dexKey ex_dex_virtual @ ''_'' @ toLowerCase (SubgraphPoolBase.address ex_vsub) @ ''virtualboosted''
        \<in> set ex_limit_virtual
   \<and> virtualBoostedPools (eventPools ex_dex_virtual)
        (split_first (id' ex_vsub) (toLowerCase (poolType ex_vsub))) = Some ex_group
   \<and> map MainToken.linearPoolAddr (mainTokens ex_group) = [ex_L1, ex_L2]
   \<and> dexKey ex_dex_virtual @ ''_'' @ toLowerCase ex_L1 \<in> set ex_limit_virtual
   \<and> dexKey ex_dex_virtual @ ''_'' @ toLowerCase ex_L2 \<in> set ex_limit_virtual
   \<and> dexKey ex_dex_virtual @ ''_'' @ toLowerCase (SubgraphPoolBase.address ex_vsub) \<in> set ex_limit_no_spoke
   \<and> dexKey ex_dex_virtual @ ''_'' @ toLowerCase (SubgraphPoolBase.address ex_vsub) @ ''virtualboosted''
        \<in> set ex_limit_no_spoke
   \<and> dexKey ex_dex_virtual @ ''_'' @ toLowerCase ex_L2 \<notin> set ex_limit_no_spoke
   \<and> ex_vsub \<notin> set (allowedPools ex_dex_virtual (Some ex_limit_no_spoke) [ex_vsub, ex_sub2])
   \<and> getPricesVolume ex_dex_virtual ex_from ex_to [1, 100, 500] SELL 100 (Some ex_limit_virtual)
        = (\<lparr>blockNumber = 100, poolState = [ex_V \<mapsto> ex_pool2]\<rparr>, Some [ex_quote3])
   \<and> poolAddresses ex_quote3 = [ex_V, ex_L1, ex_L2]
   \<and> (\<exists>p \<in> set (allowedPools ex_dex_virtual (Some ex_limit_virtual)
                     (getPools ex_dex_virtual (wrapETH ex_dex_virtual ex_from) (wrapETH ex_dex_virtual ex_to))).
          poolId (data ex_quote3) = id' p
        \<and> hd (poolAddresses ex_quote3) = toLowerCase (SubgraphPoolBase.address p))"
proof -
  let ?c = "\<lparr>blockNumber = 100, poolState = [ex_V \<mapsto> ex_pool2]\<rparr>"
  note listed = limitPools_filter [of ex_vsub ex_dex_virtual ex_limit_virtual "[ex_vsub, ex_sub2]"
      ex_from ex_to "[1, 100, 500]" SELL 100 ?c "[ex_quote3]"]
  note unlisted = limitPools_filter [of ex_vsub ex_dex_virtual ex_limit_no_spoke "[ex_vsub, ex_sub2]"
      ex_from ex_to "[1, 100, 500]" SELL 100 ?c "[ex_quote3]"]
  have composed: "virtual_pools_composed ex_dex_virtual"
    by (rule ex_virtual_composed)
  have cands: "getPools ex_dex_virtual (wrapETH ex_dex_virtual ex_from) (wrapETH ex_dex_virtual ex_to)
      = [ex_vsub, ex_sub2]"
    by (simp add: ex_dex_virtual_fields ex_virtual_getPools)
  have sub: "set [ex_vsub, ex_sub2] \<subseteq> set (allPools (eventPools ex_dex_virtual))"
    by (simp add: ex_dex_virtual_fields ex_eventPools_virtual_fields)
  have ty: "poolType ex_vsub = ''VirtualBoosted''"
    by (simp add: ex_vsub_fields)
  have kept: "ex_vsub \<in> set (allowedPools ex_dex_virtual (Some ex_limit_virtual) [ex_vsub, ex_sub2])"
    "ex_sub2 \<notin> set (allowedPools ex_dex_virtual (Some ex_limit_virtual) [ex_vsub, ex_sub2])"
    using ex_vsub_neq by (auto simp: ex_allowed_virtual)
  have group: "virtualBoostedPools (eventPools ex_dex_virtual)
        (split_first (id' ex_vsub) (toLowerCase (poolType ex_vsub))) = Some ex_group"
    by (simp add: ex_dex_virtual_fields ex_eventPools_virtual_fields ex_vsub_fields ex_lower3
        ex_split_virtual)
  have ids: "dexKey ex_dex_virtual @ ''_'' @ toLowerCase (SubgraphPoolBase.address ex_vsub) \<in> set ex_limit_virtual"
    "dexKey ex_dex_virtual @ ''_'' @ toLowerCase (SubgraphPoolBase.address ex_vsub) @ ''virtualboosted''
        \<in> set ex_limit_virtual"
    "\<forall>t \<in> set (mainTokens ex_group).
        dexKey ex_dex_virtual @ ''_'' @ toLowerCase (MainToken.linearPoolAddr t) \<in> set ex_limit_virtual"
    using listed composed sub ty kept(1) group by auto
  have spokes: "map MainToken.linearPoolAddr (mainTokens ex_group) = [ex_L1, ex_L2]"
    by (simp add: ex_group_fields)
  have spoke_ids: "dexKey ex_dex_virtual @ ''_'' @ toLowerCase ex_L1 \<in> set ex_limit_virtual"
    "dexKey ex_dex_virtual @ ''_'' @ toLowerCase ex_L2 \<in> set ex_limit_virtual"
    using ids(3) by (simp_all add: ex_group_fields)
  have other: "dexKey ex_dex_virtual @ ''_'' @ toLowerCase (SubgraphPoolBase.address ex_sub2) \<notin> set ex_limit_virtual"
    using ex_distinct3 ex_distinct4
    by (simp add: ex_dex_virtual_fields ex_sub_fields ex_lower2 ex_limit_virtual_def)
  have no_spoke: "dexKey ex_dex_virtual @ ''_'' @ toLowerCase (SubgraphPoolBase.address ex_vsub) \<in> set ex_limit_no_spoke"
    "dexKey ex_dex_virtual @ ''_'' @ toLowerCase (SubgraphPoolBase.address ex_vsub) @ ''virtualboosted''
        \<in> set ex_limit_no_spoke"
    "dexKey ex_dex_virtual @ ''_'' @ toLowerCase ex_L2 \<notin> set ex_limit_no_spoke"
    using ex_distinct3 ex_distinct4
    by (simp_all add: ex_dex_virtual_fields ex_vsub_fields ex_lower3 ex_limit_no_spoke_def)
  have dropped: "ex_vsub \<notin> set (allowedPools ex_dex_virtual (Some ex_limit_no_spoke) [ex_vsub, ex_sub2])"
    using unlisted composed sub ty no_spoke(3) group by (auto simp: ex_group_fields)
  have quoted: "\<exists>p \<in> set (allowedPools ex_dex_virtual (Some ex_limit_virtual)
                     (getPools ex_dex_virtual (wrapETH ex_dex_virtual ex_from) (wrapETH ex_dex_virtual ex_to))).
          poolId (data ex_quote3) = id' p
        \<and> hd (poolAddresses ex_quote3) = toLowerCase (SubgraphPoolBase.address p)"
    using listed ex_virtual_getPricesVolume by simp
  have addrs: "poolAddresses ex_quote3 = [ex_V, ex_L1, ex_L2]"
    by (simp add: ex_quote3_def)
  have plain: "ex_sub2 \<in> set (allowedPools ex_dex (Some ex_limitPools) [ex_sub1, ex_sub2])"
    "ex_sub1 \<notin> set (allowedPools ex_dex (Some ex_limitPools) [ex_sub1, ex_sub2])"
  proof -
    have "ex_sub1 \<noteq> ex_sub2" by (simp add: ex_sub1_def ex_sub2_def)
    then show "ex_sub2 \<in> set (allowedPools ex_dex (Some ex_limitPools) [ex_sub1, ex_sub2])"
      "ex_sub1 \<notin> set (allowedPools ex_dex (Some ex_limitPools) [ex_sub1, ex_sub2])"
      by (simp_all add: ex_allowed_limited)
  qed
  have plain_ids: "dexKey ex_dex @ ''_'' @ toLowerCase (SubgraphPoolBase.address ex_sub1) \<notin> set ex_limitPools"
    "dexKey ex_dex @ ''_'' @ toLowerCase (SubgraphPoolBase.address ex_sub2) \<in> set ex_limitPools"
    using ex_distinct by (simp_all add: ex_dex_fields ex_sub_fields ex_lower2 ex_limitPools_def)
  show ?thesis
    using plain plain_ids composed cands sub ty kept group ids(1,2) spokes spoke_ids other no_spoke
      dropped ex_virtual_getPricesVolume addrs quoted
    by simp
qed

text \<open>
  Claim C3, amended. A pool address of the Disabled-Pool Set is removed from the event
  states that pools are resolved against, not from the results: a returned price whose
  pool address is disabled belongs to an allowed pool that was found in the non-event
  states instead, which are those of the cache afterwards, recorded for the requested
  block; and the state map handed to the strategy holds at that address the non-event
  state, not the snapshot's.
\<close>

theorem disabled_pool_priced_from_nonEvent_state:
  assumes run: "getPricesVolume dex from to amounts side bn limitPools = (cache', Some quotes)"
    and dis: "a \<in> set (eventDisabledPools dex)"
    and q: "q \<in> set quotes" "hd (poolAddresses q) = a"
  shows "\<exists>ro pool.
       getState (eventPools dex) bn = Inr ro
     \<and> pool \<in> set (allowedPools dex limitPools (getPools dex (wrapETH dex from) (wrapETH dex to)))
     \<and> toLowerCase (SubgraphPoolBase.address pool) = a
     \<and> delete_disabled (eventDisabledPools dex) (case ro of None \<Rightarrow> Map.empty | Some m \<Rightarrow> m) a = None
     \<and> poolState cache' a \<noteq> None
     \<and> blockNumber cache' = bn
     \<and> ((case ro of None \<Rightarrow> Map.empty | Some m \<Rightarrow> m) ++ poolState cache') a = poolState cache' a
     \<and> price_pool dex (wrapETH dex from) (wrapETH dex to) amounts
           (getBigIntPow (Token.decimals (if side = SELL then wrapETH dex from else wrapETH dex to))) side
           (delete_disabled (eventDisabledPools dex) (case ro of None \<Rightarrow> Map.empty | Some m \<Rightarrow> m))
           (poolState cache') ((case ro of None \<Rightarrow> Map.empty | Some m \<Rightarrow> m) ++ poolState cache') pool = Some q"
proof -
  let ?cands = "getPools dex (wrapETH dex from) (wrapETH dex to)"
  obtain ro where st: "getState (eventPools dex) bn = Inr ro"
    and quotes: "quotes = List.map_filter
        (price_pool dex (wrapETH dex from) (wrapETH dex to) amounts
           (getBigIntPow (Token.decimals (if side = SELL then wrapETH dex from else wrapETH dex to))) side
           (delete_disabled (eventDisabledPools dex) (case ro of None \<Rightarrow> Map.empty | Some m \<Rightarrow> m))
           (poolState cache') ((case ro of None \<Rightarrow> Map.empty | Some m \<Rightarrow> m) ++ poolState cache'))
        (allowedPools dex limitPools ?cands)"
    using getPricesVolume_Some [OF run] by blast
  let ?rom = "case ro of None \<Rightarrow> Map.empty | Some m \<Rightarrow> m"
  obtain pool where pool: "pool \<in> set (allowedPools dex limitPools ?cands)"
    and priced: "price_pool dex (wrapETH dex from) (wrapETH dex to) amounts
           (getBigIntPow (Token.decimals (if side = SELL then wrapETH dex from else wrapETH dex to))) side
           (delete_disabled (eventDisabledPools dex) ?rom)
           (poolState cache') (?rom ++ poolState cache') pool = Some q"
    using q(1) unfolding quotes by (blast dest: map_filter_mem)
  have addr: "toLowerCase (SubgraphPoolBase.address pool) = a"
    using price_pool_Some [OF priced] q(2) by simp
  have ev: "delete_disabled (eventDisabledPools dex) ?rom a = None"
    using dis by (rule delete_disabled_None)
  have ne: "poolState cache' a \<noteq> None"
    using price_pool_Some [OF priced] addr ev by auto
  have "blockNumber cache' = bn"
    using run ne by (rule getPricesVolume_Some_height)
  moreover have "(?rom ++ poolState cache') a = poolState cache' a"
    using ne by (auto simp: map_add_def split: option.splits)
  ultimately show ?thesis
    using st pool addr ev ne priced by blast
qed

theorem disabled_pool_priced_from_nonEvent_state_witness:
  "getPricesVolume ex_dex ex_from ex_to [1, 100, 500] SELL 100 None
      = (\<lparr>blockNumber = 100, poolState = [ex_P1 \<mapsto> ex_chain ex_P1]\<rparr>, Some [ex_quote1, ex_quote2])
   \<and> ex_P1 \<in> set (eventDisabledPools ex_dex)
   \<and> ex_quote1 \<in> set [ex_quote1, ex_quote2]
   \<and> hd (poolAddresses ex_quote1) = ex_P1
   \<and> (\<exists>ro pool.
         getState (eventPools ex_dex) 100 = Inr ro
       \<and> pool \<in> set (allowedPools ex_dex None (getPools ex_dex (wrapETH ex_dex ex_from) (wrapETH ex_dex ex_to)))
       \<and> toLowerCase (SubgraphPoolBase.address pool) = ex_P1
       \<and> delete_disabled (eventDisabledPools ex_dex) (case ro of None \<Rightarrow> Map.empty | Some m \<Rightarrow> m) ex_P1 = None
       \<and> [ex_P1 \<mapsto> ex_chain ex_P1] ex_P1 \<noteq> None
       \<and> ((case ro of None \<Rightarrow> Map.empty | Some m \<Rightarrow> m) ++ [ex_P1 \<mapsto> ex_chain ex_P1]) ex_P1
            = Some (ex_chain ex_P1))"
proof -
  have dis: "ex_P1 \<in> set (eventDisabledPools ex_dex)"
    by (simp add: ex_dex_fields)
  have mem: "ex_quote1 \<in> set [ex_quote1, ex_quote2]" by simp
  have hd: "hd (poolAddresses ex_quote1) = ex_P1"
    by (simp add: ex_quote1_def)
  show ?thesis
    using disabled_pool_priced_from_nonEvent_state [OF ex_getPricesVolume dis mem hd]
      ex_getPricesVolume dis hd
    by auto
qed

text \<open>
  The claim C3 as stated fails: pool P1 is in the Disabled-Pool Set and has a state in the
  snapshot, and the result still holds a price that references P1, computed from the
  on-chain balances 1200/1800 rather than the snapshot's 1000/2000.
\<close>

theorem disabled_pool_quoted_counterexample:
  "ex_P1 \<in> set (eventDisabledPools ex_dex)
   \<and> getState (eventPools ex_dex) 100 = Inr (Some [ex_P1 \<mapsto> ex_pool1, ex_P2 \<mapsto> ex_pool2])
   \<and> snd (getPricesVolume ex_dex ex_from ex_to [1, 100, 500] SELL 100 None) = Some [ex_quote1, ex_quote2]
   \<and> poolAddresses ex_quote1 = [ex_P1]"
  by (simp add: ex_getPricesVolume ex_dex_fields ex_eventPools_fields ex_quote1_def)

text \<open>
  Without a snapshot, a SELL request with at least one allowed pool is answered from
  non-event states alone: the entries the cache holds for the requested block, and the
  states read on-chain at the requested block for the allowed pools missing from it, which
  are merged into the cache.
\<close>

lemma getPricesVolume_no_snapshot:
  assumes st: "getState (eventPools dex) bn = Inr None"
    and side: "side \<noteq> BUY"
    and allowed: "allowedPools dex limitPools (getPools dex (wrapETH dex from) (wrapETH dex to)) = allowed"
      "allowed \<noteq> []"
    and kept: "kept = (if blockNumber (nonEventPoolStateCache dex) = bn
                       then poolState (nonEventPoolStateCache dex) else Map.empty)"
    and missing: "missing = missingPools Map.empty kept allowed"
    and run: "getPricesVolume dex from to amounts side bn limitPools = (cache', result)"
  shows "(result = None \<longleftrightarrow> missing \<noteq> [] \<and> (\<exists>e. getOnChainState (eventPools dex) missing bn = Inl e))
     \<and> (\<forall>quotes. result = Some quotes \<longrightarrow>
           blockNumber cache' = bn
         \<and> (if missing = [] then poolState cache' = kept
            else \<exists>fetched. getOnChainState (eventPools dex) missing bn = Inr fetched
                   \<and> poolState cache' = kept ++ fetched)
         \<and> quotes = List.map_filter
             (price_pool dex (wrapETH dex from) (wrapETH dex to) amounts
                (getBigIntPow (Token.decimals (if side = SELL then wrapETH dex from else wrapETH dex to))) side
                Map.empty (poolState cache') (poolState cache'))
             allowed)"
proof -
  let ?c = "nonEventPoolStateCache dex"
  let ?c1 = "if blockNumber ?c \<noteq> bn then ?c\<lparr>poolState := Map.empty\<rparr> else ?c"
  have c1: "getNonEventPoolStateCache ?c bn = (?c1, kept)"
    by (simp add: getNonEventPoolStateCache_def Let_def kept)
  have ro: "Map.empty = (case None of None \<Rightarrow> Map.empty | Some m \<Rightarrow> m)" by simp
  have ev: "Map.empty = delete_disabled (eventDisabledPools dex) Map.empty"
    by (simp add: delete_disabled_empty)
  show ?thesis
  proof (cases "missing = []")
    case True
    have "missingPools Map.empty kept allowed = allowed" if "kept = Map.empty"
      using that by (simp add: missingPools_def)
    then have bn: "blockNumber ?c = bn"
      using True allowed(2) missing kept by (cases "blockNumber ?c = bn") auto
    have "getPricesVolume dex from to amounts side bn limitPools =
       (?c1, Some (List.map_filter
             (price_pool dex (wrapETH dex from) (wrapETH dex to) amounts
                (getBigIntPow (Token.decimals (if side = SELL then wrapETH dex from else wrapETH dex to))) side
                Map.empty kept (Map.empty ++ kept))
             allowed))"
      using side allowed st ro ev c1 True [unfolded missing]
      by (rule getPricesVolume_cached)
    then show ?thesis using run True bn kept by auto
  next
    case False
    have eq: "getPricesVolume dex from to amounts side bn limitPools =
     (case getOnChainState (eventPools dex) missing bn of
        Inl e \<Rightarrow> (?c1, None)
      | Inr fetched \<Rightarrow>
          (fst (updateNonEventPoolStateCache ?c1 fetched bn),
           Some (List.map_filter
             (price_pool dex (wrapETH dex from) (wrapETH dex to) amounts
                (getBigIntPow (Token.decimals (if side = SELL then wrapETH dex from else wrapETH dex to))) side
                Map.empty (snd (updateNonEventPoolStateCache ?c1 fetched bn))
                (Map.empty ++ snd (updateNonEventPoolStateCache ?c1 fetched bn)))
             allowed)))"
      using side allowed st ro ev c1 missing [symmetric] False
      by (rule getPricesVolume_fetch)
    have upd: "blockNumber (fst (updateNonEventPoolStateCache ?c1 fetched bn)) = bn
        \<and> poolState (fst (updateNonEventPoolStateCache ?c1 fetched bn)) = kept ++ fetched
        \<and> snd (updateNonEventPoolStateCache ?c1 fetched bn) = kept ++ fetched" for fetched
      by (simp add: updateNonEventPoolStateCache_def kept)
    show ?thesis
    proof (cases "getOnChainState (eventPools dex) missing bn")
      case (Inl e)
      then show ?thesis using run eq False by simp
    next
      case (Inr fetched)
      then show ?thesis using run eq False upd [of fetched] by auto
    qed
  qed
qed

text \<open>
  Claim C9. When \<^verbatim>\<open>getState\<close> yields no snapshot for the requested block and the states
  cannot be rebuilt, the on-chain read at the requested block for the allowed pools that
  the cache does not hold for that block failing, the request is answered with
  \<^verbatim>\<open>null\<close>. The result is \<^verbatim>\<open>null\<close> only then, on the BUY side or without an allowed pool;
  and whenever prices are returned, the cache afterwards records the requested block, and
  the states used for pricing are those of the cache: the entries it held for the
  requested block and the states read on-chain at the requested block, with no event state
  at all.
\<close>

theorem no_snapshot_unreconstructible_yields_null:
  assumes st: "getState (eventPools dex) bn = Inr None"
    and allowed: "allowedPools dex limitPools (getPools dex (wrapETH dex from) (wrapETH dex to)) = allowed"
    and kept: "kept = (if blockNumber (nonEventPoolStateCache dex) = bn
                       then poolState (nonEventPoolStateCache dex) else Map.empty)"
    and missing: "missing = missingPools Map.empty kept allowed"
    and run: "getPricesVolume dex from to amounts side bn limitPools = (cache', result)"
  shows "(missing \<noteq> [] \<and> (\<exists>e. getOnChainState (eventPools dex) missing bn = Inl e) \<longrightarrow> result = None)
     \<and> (result = None \<longleftrightarrow>
          side = BUY \<or> allowed = []
        \<or> (missing \<noteq> [] \<and> (\<exists>e. getOnChainState (eventPools dex) missing bn = Inl e)))
     \<and> (\<forall>quotes. result = Some quotes \<longrightarrow>
           blockNumber cache' = bn
         \<and> (if missing = [] then poolState cache' = kept
            else \<exists>fetched. getOnChainState (eventPools dex) missing bn = Inr fetched
                   \<and> poolState cache' = kept ++ fetched)
         \<and> quotes = List.map_filter
             (price_pool dex (wrapETH dex from) (wrapETH dex to) amounts
                (getBigIntPow (Token.decimals (if side = SELL then wrapETH dex from else wrapETH dex to))) side
                Map.empty (poolState cache') (poolState cache'))
             allowed)"
proof -
  consider (buy) "side = BUY" | (none) "side \<noteq> BUY" "allowed = []"
    | (priced) "side \<noteq> BUY" "allowed \<noteq> []"
    by blast
  then show ?thesis
  proof cases
    case buy
    then have "result = None"
      using run by (simp add: getPricesVolume_def)
    then show ?thesis using buy by simp
  next
    case none
    then have "result = None"
      using run allowed by (simp add: getPricesVolume_def Let_def)
    then show ?thesis using none by simp
  next
    case priced
    show ?thesis
      using getPricesVolume_no_snapshot [OF st priced(1) allowed priced(2) kept missing run] priced
      by blast
  qed
qed

theorem no_snapshot_unreconstructible_yields_null_witness:
  "getState (eventPools ex_dex_unreachable) 100 = Inr None
   \<and> allowedPools ex_dex_unreachable None
        (getPools ex_dex_unreachable (wrapETH ex_dex_unreachable ex_from) (wrapETH ex_dex_unreachable ex_to))
        = [ex_sub1, ex_sub2]
   \<and> blockNumber (nonEventPoolStateCache ex_dex_unreachable) \<noteq> 100
   \<and> missingPools Map.empty Map.empty [ex_sub1, ex_sub2] = [ex_sub1, ex_sub2]
   \<and> [ex_sub1, ex_sub2] \<noteq> []
   \<and> getOnChainState (eventPools ex_dex_unreachable) [ex_sub1, ex_sub2] 100 = Inl FetchError
   \<and> getPricesVolume ex_dex_unreachable ex_from ex_to [1, 100, 500] SELL 100 None
        = (\<lparr>blockNumber = 0, poolState = Map.empty\<rparr>, None)
   \<and> getState (eventPools ex_dex_no_snap) 100 = Inr None
   \<and> allowedPools ex_dex_no_snap None
        (getPools ex_dex_no_snap (wrapETH ex_dex_no_snap ex_from) (wrapETH ex_dex_no_snap ex_to))
        = [ex_sub1, ex_sub2]
   \<and> blockNumber (nonEventPoolStateCache ex_dex_no_snap) \<noteq> 100
   \<and> getOnChainState (eventPools ex_dex_no_snap) [ex_sub1, ex_sub2] 100
        = Inr [ex_P1 \<mapsto> ex_chain ex_P1, ex_P2 \<mapsto> ex_chain ex_P2]
   \<and> getPricesVolume ex_dex_no_snap ex_from ex_to [1, 100, 500] SELL 100 None
        = (\<lparr>blockNumber = 100, poolState = [ex_P1 \<mapsto> ex_chain ex_P1, ex_P2 \<mapsto> ex_chain ex_P2]\<rparr>,
           Some [ex_quote1, ex_quote2])
   \<and> [ex_quote1, ex_quote2] = List.map_filter
             (price_pool ex_dex_no_snap (wrapETH ex_dex_no_snap ex_from) (wrapETH ex_dex_no_snap ex_to)
                [1, 100, 500]
                (getBigIntPow (Token.decimals (if SELL = SELL then wrapETH ex_dex_no_snap ex_from
                                               else wrapETH ex_dex_no_snap ex_to))) SELL
                Map.empty [ex_P1 \<mapsto> ex_chain ex_P1, ex_P2 \<mapsto> ex_chain ex_P2]
                [ex_P1 \<mapsto> ex_chain ex_P1, ex_P2 \<mapsto> ex_chain ex_P2])
             [ex_sub1, ex_sub2]"
proof -
  let ?u = "nonEventPoolStateCache ex_dex_unreachable"
  let ?c = "nonEventPoolStateCache ex_dex_no_snap"
  have st_u: "getState (eventPools ex_dex_unreachable) 100 = Inr None"
    by (simp add: ex_dex_unreachable_fields ex_eventPools_unreachable_fields)
  have allowed_u: "allowedPools ex_dex_unreachable None
        (getPools ex_dex_unreachable (wrapETH ex_dex_unreachable ex_from) (wrapETH ex_dex_unreachable ex_to))
        = [ex_sub1, ex_sub2]"
    by (simp add: allowedPools_def ex_dex_unreachable_fields ex_unreachable_getPools)
  have bn_u: "blockNumber ?u \<noteq> 100"
    by (simp add: ex_dex_unreachable_fields)
  have kept_u: "Map.empty = (if blockNumber ?u = 100 then poolState ?u else Map.empty)"
    using bn_u by simp
  have missing: "[ex_sub1, ex_sub2] = missingPools Map.empty Map.empty [ex_sub1, ex_sub2]"
    by (simp add: ex_no_snap_missing)
  have fetch_u: "getOnChainState (eventPools ex_dex_unreachable) [ex_sub1, ex_sub2] 100 = Inl FetchError"
    by (simp add: ex_dex_unreachable_fields ex_unreachable_fetch2)
  have run_u: "getPricesVolume ex_dex_unreachable ex_from ex_to [1, 100, 500] SELL 100 None
        = (fst (getPricesVolume ex_dex_unreachable ex_from ex_to [1, 100, 500] SELL 100 None),
           snd (getPricesVolume ex_dex_unreachable ex_from ex_to [1, 100, 500] SELL 100 None))"
    by simp
  have null: "snd (getPricesVolume ex_dex_unreachable ex_from ex_to [1, 100, 500] SELL 100 None) = None"
    using no_snapshot_unreconstructible_yields_null [OF st_u allowed_u kept_u missing run_u] fetch_u
    by simp
  have st: "getState (eventPools ex_dex_no_snap) 100 = Inr None"
    by (simp add: ex_dex_no_snap_fields ex_eventPools_no_snapshot_fields)
  have allowed: "allowedPools ex_dex_no_snap None
        (getPools ex_dex_no_snap (wrapETH ex_dex_no_snap ex_from) (wrapETH ex_dex_no_snap ex_to))
        = [ex_sub1, ex_sub2]"
    by (simp add: allowedPools_def ex_dex_no_snap_fields ex_no_snap_getPools)
  have bn: "blockNumber ?c \<noteq> 100"
    by (simp add: ex_dex_no_snap_fields)
  have kept: "Map.empty = (if blockNumber ?c = 100 then poolState ?c else Map.empty)"
    using bn by simp
  have fetch: "getOnChainState (eventPools ex_dex_no_snap) [ex_sub1, ex_sub2] 100
        = Inr [ex_P1 \<mapsto> ex_chain ex_P1, ex_P2 \<mapsto> ex_chain ex_P2]"
    by (simp add: ex_dex_no_snap_fields ex_no_snap_fetch2)
  show ?thesis
    using no_snapshot_unreconstructible_yields_null [OF st allowed kept missing ex_no_snap_getPricesVolume]
      null st_u allowed_u bn_u fetch_u ex_unreachable_getPricesVolume
      st allowed bn ex_no_snap_missing ex_no_snap_getPricesVolume fetch
    by simp
qed

end
